theory Spec2Isabelle
  imports Main
begin

section \<open>Quote Forge: the server actions over the two tables\<close>

text \<open>
  The development embeds \<^verbatim>\<open>src/db/tables.ts\<close> (the two tables) and
  \<^verbatim>\<open>src/src/actions/index.ts\<close> (the seven actions with their helpers
  \<^verbatim>\<open>requireUser\<close> and \<^verbatim>\<open>getOwnedCollection\<close>).

  \<^item> A table is the list of its rows, in insertion order.
  \<^item> A handler is a function of the store that returns its outcome together with the
    store it leaves behind, so that what a failing call does to the store is visible.
  \<^item> A thrown error is the \<open>Inl\<close> side of the outcome.
  \<^item> \<^verbatim>\<open>new Date()\<close> and \<^verbatim>\<open>crypto.randomUUID()\<close> read the
    environment; their values are parameters \<open>now\<close> and \<open>uuid\<close> of the action.
\<close>

subsection \<open>Tables (\<^verbatim>\<open>src/db/tables.ts\<close>)\<close>

type_synonym date = int

record collection_row =
  c_id :: string
  c_userId :: string
  c_name :: string
  c_description :: "string option"
  c_icon :: "string option"
  c_isDefault :: bool
  c_createdAt :: date
  c_updatedAt :: date

record quote_row =
  q_id :: string
  q_collectionId :: string
  q_userId :: string
  q_text :: string
  q_attributedTo :: "string option"
  q_mood :: "string option"
  q_tags :: "string option"
  q_language :: "string option"
  q_isFavorite :: bool
  q_isPublic :: bool
  q_createdAt :: date
  q_updatedAt :: date

record store =
  QuoteCollections :: "collection_row list"
  Quotes :: "quote_row list"

subsection \<open>Errors and the request context\<close>

datatype code = UNAUTHORIZED | NOT_FOUND

text \<open>
  \<open>ActionError\<close> is the error the handlers throw themselves, with its code and message.
  \<open>ActionInputError\<close> is what a rejected input gives (the list of issues it carries is
  not modelled). \<open>ConstraintError\<close> is the store refusing an insert that breaks a
  declared constraint of the table.
\<close>

datatype error = ActionError code string | ActionInputError | ConstraintError

record app_user =
  u_id :: string

record app_locals =
  user :: "app_user option"

record api_context =
  locals :: "app_locals option"

subsection \<open>Statements of the store\<close>

text \<open>\<^verbatim>\<open>const [x] = rows\<close>: the first row, or undefined.\<close>

definition first :: "'r list \<Rightarrow> 'r option" where
  "first rows = (case rows of [] \<Rightarrow> None | x # _ \<Rightarrow> Some x)"

definition db_select :: "('r \<Rightarrow> bool) \<Rightarrow> 'r list \<Rightarrow> 'r list" where
  "db_select p rows = filter p rows"

text \<open>
  \<^verbatim>\<open>update(T).set(f).where(p).returning()\<close>: the rows returned and the table
  afterwards.
\<close>

definition db_update :: "('r \<Rightarrow> 'r) \<Rightarrow> ('r \<Rightarrow> bool) \<Rightarrow> 'r list \<Rightarrow> 'r list \<times> 'r list" where
  "db_update f p rows = (map f (filter p rows), map (\<lambda>r. if p r then f r else r) rows)"

text \<open>\<^verbatim>\<open>delete(T).where(p)\<close>: \<^verbatim>\<open>rowsAffected\<close> and the table afterwards.\<close>

definition db_delete :: "('r \<Rightarrow> bool) \<Rightarrow> 'r list \<Rightarrow> nat \<times> 'r list" where
  "db_delete p rows = (length (filter p rows), filter (\<lambda>r. \<not> p r) rows)"

text \<open>
  \<^verbatim>\<open>insert(QuoteCollections).values(row).returning()\<close>. The column \<^verbatim>\<open>id\<close>
  is the primary key: a row whose id is already in the table is refused.
\<close>

definition insert_QuoteCollections ::
  "collection_row \<Rightarrow> store \<Rightarrow> error + (collection_row list \<times> store)" where
  "insert_QuoteCollections row s =
     (if c_id row \<in> set (map c_id (QuoteCollections s)) then Inl ConstraintError
      else Inr ([row], s\<lparr>QuoteCollections := QuoteCollections s @ [row]\<rparr>))"

text \<open>
  \<^verbatim>\<open>insert(Quotes).values(row).returning()\<close>. \<^verbatim>\<open>id\<close> is the primary key and
  \<^verbatim>\<open>collectionId\<close> references \<^verbatim>\<open>QuoteCollections.id\<close>.
\<close>

definition insert_Quotes :: "quote_row \<Rightarrow> store \<Rightarrow> error + (quote_row list \<times> store)" where
  "insert_Quotes row s =
     (if q_id row \<in> set (map q_id (Quotes s)) then Inl ConstraintError
      else if q_collectionId row \<notin> set (map c_id (QuoteCollections s)) then Inl ConstraintError
      else Inr ([row], s\<lparr>Quotes := Quotes s @ [row]\<rparr>))"

subsection \<open>The two helpers\<close>

text \<open>
  \<^verbatim>\<open>locals?.user\<close> is undefined when the context has no locals or the locals have
  no user; a user object is never falsy.
\<close>

definition requireUser :: "api_context \<Rightarrow> error + app_user" where
  "requireUser context =
     (case Option.bind (locals context) user of
        None \<Rightarrow> Inl (ActionError UNAUTHORIZED ''You must be signed in to perform this action.'')
      | Some u \<Rightarrow> Inr u)"

definition getOwnedCollection :: "string \<Rightarrow> string \<Rightarrow> store \<Rightarrow> error + collection_row" where
  "getOwnedCollection collectionId userId s =
     (case first (db_select (\<lambda>c. c_id c = collectionId \<and> c_userId c = userId)
                    (QuoteCollections s)) of
        None \<Rightarrow> Inl (ActionError NOT_FOUND ''Collection not found.'')
      | Some collection \<Rightarrow> Inr collection)"

subsection \<open>\<^verbatim>\<open>defineAction\<close>\<close>

text \<open>
  The handler of an action receives the value its input schema produced (with the
  defaults filled in), so an input the schema rejects never reaches the handler: the
  action fails with the input error and the store is not touched.
\<close>

definition defineAction ::
  "('i \<Rightarrow> error + 'p) \<Rightarrow> ('p \<Rightarrow> api_context \<Rightarrow> store \<Rightarrow> (error + 'a) \<times> store) \<Rightarrow>
   'i \<Rightarrow> api_context \<Rightarrow> store \<Rightarrow> (error + 'a) \<times> store" where
  "defineAction schema handler input context s =
     (case schema input of
        Inl e \<Rightarrow> (Inl e, s)
      | Inr parsed \<Rightarrow> handler parsed context s)"

text \<open>\<^verbatim>\<open>z.string().min(1)\<close> on a present string.\<close>

definition min1 :: "string \<Rightarrow> bool" where
  "min1 x = (1 \<le> length x)"

subsection \<open>createCollection\<close>

text \<open>
  A field declared \<^verbatim>\<open>.optional()\<close> is an option, \<open>None\<close> for undefined. A required
  field has its type: an input that lacks it, or has a value of another type there, is
  outside the input type (the schema rejects it too).
\<close>

record createCollection_input =
  cc_name :: string
  cc_description :: "string option"
  cc_icon :: "string option"
  cc_isDefault :: "bool option"

definition createCollection_schema ::
  "createCollection_input \<Rightarrow> error + createCollection_input" where
  "createCollection_schema input =
     (if min1 (cc_name input) then Inr input else Inl ActionInputError)"

definition createCollection_handler ::
  "string \<Rightarrow> date \<Rightarrow> createCollection_input \<Rightarrow> api_context \<Rightarrow> store \<Rightarrow>
   (error + collection_row option) \<times> store" where
  "createCollection_handler uuid now input context s =
     (case requireUser context of
        Inl e \<Rightarrow> (Inl e, s)
      | Inr u \<Rightarrow>
          (case insert_QuoteCollections
                  \<lparr>c_id = uuid, c_userId = u_id u, c_name = cc_name input,
                   c_description = cc_description input, c_icon = cc_icon input,
                   c_isDefault = (case cc_isDefault input of None \<Rightarrow> False | Some b \<Rightarrow> b),
                   c_createdAt = now, c_updatedAt = now\<rparr> s of
             Inl e \<Rightarrow> (Inl e, s)
           | Inr (rows, s') \<Rightarrow> (Inr (first rows), s')))"

definition createCollection ::
  "string \<Rightarrow> date \<Rightarrow> createCollection_input \<Rightarrow> api_context \<Rightarrow> store \<Rightarrow>
   (error + collection_row option) \<times> store" where
  "createCollection uuid now =
     defineAction createCollection_schema (createCollection_handler uuid now)"

subsection \<open>updateCollection\<close>

record updateCollection_input =
  uc_id :: string
  uc_name :: "string option"
  uc_description :: "string option"
  uc_icon :: "string option"
  uc_isDefault :: "bool option"

definition updateCollection_refine :: "updateCollection_input \<Rightarrow> bool" where
  "updateCollection_refine input =
     (uc_name input \<noteq> None \<or> uc_description input \<noteq> None \<or>
      uc_icon input \<noteq> None \<or> uc_isDefault input \<noteq> None)"

definition updateCollection_schema ::
  "updateCollection_input \<Rightarrow> error + updateCollection_input" where
  "updateCollection_schema input =
     (if min1 (uc_id input) \<and>
         (case uc_name input of None \<Rightarrow> True | Some n \<Rightarrow> min1 n) \<and>
         updateCollection_refine input
      then Inr input else Inl ActionInputError)"

text \<open>The object given to \<^verbatim>\<open>.set\<close>: the provided fields and \<^verbatim>\<open>updatedAt\<close>.\<close>

definition updateCollection_set ::
  "updateCollection_input \<Rightarrow> date \<Rightarrow> collection_row \<Rightarrow> collection_row" where
  "updateCollection_set input now c =
     c\<lparr>c_name := (case uc_name input of None \<Rightarrow> c_name c | Some n \<Rightarrow> n),
       c_description := (case uc_description input of None \<Rightarrow> c_description c | Some d \<Rightarrow> Some d),
       c_icon := (case uc_icon input of None \<Rightarrow> c_icon c | Some i \<Rightarrow> Some i),
       c_isDefault := (case uc_isDefault input of None \<Rightarrow> c_isDefault c | Some b \<Rightarrow> b),
       c_updatedAt := now\<rparr>"

definition updateCollection_handler ::
  "date \<Rightarrow> updateCollection_input \<Rightarrow> api_context \<Rightarrow> store \<Rightarrow>
   (error + collection_row option) \<times> store" where
  "updateCollection_handler now input context s =
     (case requireUser context of
        Inl e \<Rightarrow> (Inl e, s)
      | Inr u \<Rightarrow>
          (case getOwnedCollection (uc_id input) (u_id u) s of
             Inl e \<Rightarrow> (Inl e, s)
           | Inr _ \<Rightarrow>
               (case db_update (updateCollection_set input now)
                       (\<lambda>c. c_id c = uc_id input) (QuoteCollections s) of
                  (rows, table) \<Rightarrow> (Inr (first rows), s\<lparr>QuoteCollections := table\<rparr>))))"

definition updateCollection ::
  "date \<Rightarrow> updateCollection_input \<Rightarrow> api_context \<Rightarrow> store \<Rightarrow>
   (error + collection_row option) \<times> store" where
  "updateCollection now = defineAction updateCollection_schema (updateCollection_handler now)"

subsection \<open>listCollections\<close>

text \<open>The input schema \<^verbatim>\<open>z.object({}).optional()\<close> has no field to reject.\<close>

definition listCollections_schema :: "unit \<Rightarrow> error + unit" where
  "listCollections_schema input = Inr input"

definition listCollections_handler ::
  "unit \<Rightarrow> api_context \<Rightarrow> store \<Rightarrow> (error + collection_row list \<times> nat) \<times> store" where
  "listCollections_handler input context s =
     (case requireUser context of
        Inl e \<Rightarrow> (Inl e, s)
      | Inr u \<Rightarrow>
          (let collections = db_select (\<lambda>c. c_userId c = u_id u) (QuoteCollections s)
           in (Inr (collections, length collections), s)))"

definition listCollections ::
  "unit \<Rightarrow> api_context \<Rightarrow> store \<Rightarrow> (error + collection_row list \<times> nat) \<times> store" where
  "listCollections = defineAction listCollections_schema listCollections_handler"

subsection \<open>createQuote\<close>

record createQuote_input =
  cq_collectionId :: string
  cq_text :: string
  cq_attributedTo :: "string option"
  cq_mood :: "string option"
  cq_tags :: "string option"
  cq_language :: "string option"
  cq_isFavorite :: "bool option"
  cq_isPublic :: "bool option"

definition createQuote_schema :: "createQuote_input \<Rightarrow> error + createQuote_input" where
  "createQuote_schema input =
     (if min1 (cq_collectionId input) \<and> min1 (cq_text input) then Inr input
      else Inl ActionInputError)"

definition createQuote_handler ::
  "string \<Rightarrow> date \<Rightarrow> createQuote_input \<Rightarrow> api_context \<Rightarrow> store \<Rightarrow>
   (error + quote_row option) \<times> store" where
  "createQuote_handler uuid now input context s =
     (case requireUser context of
        Inl e \<Rightarrow> (Inl e, s)
      | Inr u \<Rightarrow>
          (case getOwnedCollection (cq_collectionId input) (u_id u) s of
             Inl e \<Rightarrow> (Inl e, s)
           | Inr _ \<Rightarrow>
               (case insert_Quotes
                       \<lparr>q_id = uuid, q_collectionId = cq_collectionId input, q_userId = u_id u,
                        q_text = cq_text input, q_attributedTo = cq_attributedTo input,
                        q_mood = cq_mood input, q_tags = cq_tags input,
                        q_language = cq_language input,
                        q_isFavorite = (case cq_isFavorite input of None \<Rightarrow> False | Some b \<Rightarrow> b),
                        q_isPublic = (case cq_isPublic input of None \<Rightarrow> False | Some b \<Rightarrow> b),
                        q_createdAt = now, q_updatedAt = now\<rparr> s of
                  Inl e \<Rightarrow> (Inl e, s)
                | Inr (rows, s') \<Rightarrow> (Inr (first rows), s'))))"

definition createQuote ::
  "string \<Rightarrow> date \<Rightarrow> createQuote_input \<Rightarrow> api_context \<Rightarrow> store \<Rightarrow>
   (error + quote_row option) \<times> store" where
  "createQuote uuid now = defineAction createQuote_schema (createQuote_handler uuid now)"

subsection \<open>updateQuote\<close>

record updateQuote_input =
  uq_id :: string
  uq_collectionId :: string
  uq_text :: "string option"
  uq_attributedTo :: "string option"
  uq_mood :: "string option"
  uq_tags :: "string option"
  uq_language :: "string option"
  uq_isFavorite :: "bool option"
  uq_isPublic :: "bool option"

definition updateQuote_refine :: "updateQuote_input \<Rightarrow> bool" where
  "updateQuote_refine input =
     (uq_text input \<noteq> None \<or> uq_attributedTo input \<noteq> None \<or> uq_mood input \<noteq> None \<or>
      uq_tags input \<noteq> None \<or> uq_language input \<noteq> None \<or> uq_isFavorite input \<noteq> None \<or>
      uq_isPublic input \<noteq> None)"

definition updateQuote_schema :: "updateQuote_input \<Rightarrow> error + updateQuote_input" where
  "updateQuote_schema input =
     (if min1 (uq_id input) \<and> min1 (uq_collectionId input) \<and> updateQuote_refine input
      then Inr input else Inl ActionInputError)"

definition updateQuote_set :: "updateQuote_input \<Rightarrow> date \<Rightarrow> quote_row \<Rightarrow> quote_row" where
  "updateQuote_set input now q =
     q\<lparr>q_text := (case uq_text input of None \<Rightarrow> q_text q | Some t \<Rightarrow> t),
       q_attributedTo := (case uq_attributedTo input of None \<Rightarrow> q_attributedTo q | Some a \<Rightarrow> Some a),
       q_mood := (case uq_mood input of None \<Rightarrow> q_mood q | Some m \<Rightarrow> Some m),
       q_tags := (case uq_tags input of None \<Rightarrow> q_tags q | Some t \<Rightarrow> Some t),
       q_language := (case uq_language input of None \<Rightarrow> q_language q | Some l \<Rightarrow> Some l),
       q_isFavorite := (case uq_isFavorite input of None \<Rightarrow> q_isFavorite q | Some b \<Rightarrow> b),
       q_isPublic := (case uq_isPublic input of None \<Rightarrow> q_isPublic q | Some b \<Rightarrow> b),
       q_updatedAt := now\<rparr>"

definition updateQuote_handler ::
  "date \<Rightarrow> updateQuote_input \<Rightarrow> api_context \<Rightarrow> store \<Rightarrow>
   (error + quote_row option) \<times> store" where
  "updateQuote_handler now input context s =
     (case requireUser context of
        Inl e \<Rightarrow> (Inl e, s)
      | Inr u \<Rightarrow>
          (case getOwnedCollection (uq_collectionId input) (u_id u) s of
             Inl e \<Rightarrow> (Inl e, s)
           | Inr _ \<Rightarrow>
               (case first (db_select
                              (\<lambda>q. q_id q = uq_id input \<and> q_collectionId q = uq_collectionId input)
                              (Quotes s)) of
                  None \<Rightarrow> (Inl (ActionError NOT_FOUND ''Quote not found.''), s)
                | Some existing \<Rightarrow>
                    (case db_update (updateQuote_set input now)
                            (\<lambda>q. q_id q = uq_id input) (Quotes s) of
                       (rows, table) \<Rightarrow> (Inr (first rows), s\<lparr>Quotes := table\<rparr>)))))"

definition updateQuote ::
  "date \<Rightarrow> updateQuote_input \<Rightarrow> api_context \<Rightarrow> store \<Rightarrow>
   (error + quote_row option) \<times> store" where
  "updateQuote now = defineAction updateQuote_schema (updateQuote_handler now)"

subsection \<open>deleteQuote\<close>

record deleteQuote_input =
  dq_id :: string
  dq_collectionId :: string

definition deleteQuote_schema :: "deleteQuote_input \<Rightarrow> error + deleteQuote_input" where
  "deleteQuote_schema input =
     (if min1 (dq_id input) \<and> min1 (dq_collectionId input) then Inr input
      else Inl ActionInputError)"

text \<open>
  The delete statement runs first and the error is thrown afterwards, on
  \<^verbatim>\<open>rowsAffected === 0\<close>: the store returned with the error is the one the
  statement left.
\<close>

definition deleteQuote_handler ::
  "deleteQuote_input \<Rightarrow> api_context \<Rightarrow> store \<Rightarrow> (error + unit) \<times> store" where
  "deleteQuote_handler input context s =
     (case requireUser context of
        Inl e \<Rightarrow> (Inl e, s)
      | Inr u \<Rightarrow>
          (case getOwnedCollection (dq_collectionId input) (u_id u) s of
             Inl e \<Rightarrow> (Inl e, s)
           | Inr _ \<Rightarrow>
               (case db_delete
                       (\<lambda>q. q_id q = dq_id input \<and> q_collectionId q = dq_collectionId input)
                       (Quotes s) of
                  (rowsAffected, table) \<Rightarrow>
                    if rowsAffected = 0
                    then (Inl (ActionError NOT_FOUND ''Quote not found.''), s\<lparr>Quotes := table\<rparr>)
                    else (Inr (), s\<lparr>Quotes := table\<rparr>))))"

definition deleteQuote ::
  "deleteQuote_input \<Rightarrow> api_context \<Rightarrow> store \<Rightarrow> (error + unit) \<times> store" where
  "deleteQuote = defineAction deleteQuote_schema deleteQuote_handler"

subsection \<open>listQuotes\<close>

text \<open>
  The two flags are declared \<^verbatim>\<open>z.boolean().default(false)\<close>: optional in the input,
  always present in what the handler receives.
\<close>

record listQuotes_input =
  lq_collectionId :: string
  lq_favoritesOnly :: "bool option"
  lq_includePublic :: "bool option"

record listQuotes_parsed =
  lp_collectionId :: string
  lp_favoritesOnly :: bool
  lp_includePublic :: bool

definition listQuotes_schema :: "listQuotes_input \<Rightarrow> error + listQuotes_parsed" where
  "listQuotes_schema input =
     (if min1 (lq_collectionId input)
      then Inr \<lparr>lp_collectionId = lq_collectionId input,
                lp_favoritesOnly = (case lq_favoritesOnly input of None \<Rightarrow> False | Some b \<Rightarrow> b),
                lp_includePublic = (case lq_includePublic input of None \<Rightarrow> False | Some b \<Rightarrow> b)\<rparr>
      else Inl ActionInputError)"

text \<open>
  The list \<^verbatim>\<open>filters\<close> as a list of predicates, and \<^verbatim>\<open>and(...filters)\<close> as
  their conjunction. The branch on \<^verbatim>\<open>includePublic\<close> is empty in the source.
\<close>

definition listQuotes_filters :: "listQuotes_parsed \<Rightarrow> app_user \<Rightarrow> (quote_row \<Rightarrow> bool) list" where
  "listQuotes_filters input u =
     [\<lambda>q. q_collectionId q = lp_collectionId input, \<lambda>q. q_userId q = u_id u] @
     (if lp_favoritesOnly input then [\<lambda>q. q_isFavorite q = True] else []) @
     (if \<not> lp_includePublic input then [] else [])"

definition and_filters :: "('r \<Rightarrow> bool) list \<Rightarrow> 'r \<Rightarrow> bool" where
  "and_filters fs r = list_all (\<lambda>f. f r) fs"

definition listQuotes_handler ::
  "listQuotes_parsed \<Rightarrow> api_context \<Rightarrow> store \<Rightarrow> (error + quote_row list \<times> nat) \<times> store" where
  "listQuotes_handler input context s =
     (case requireUser context of
        Inl e \<Rightarrow> (Inl e, s)
      | Inr u \<Rightarrow>
          (case getOwnedCollection (lp_collectionId input) (u_id u) s of
             Inl e \<Rightarrow> (Inl e, s)
           | Inr _ \<Rightarrow>
               (let quotes = db_select (and_filters (listQuotes_filters input u)) (Quotes s)
                in (Inr (quotes, length quotes), s))))"

definition listQuotes ::
  "listQuotes_input \<Rightarrow> api_context \<Rightarrow> store \<Rightarrow> (error + quote_row list \<times> nat) \<times> store" where
  "listQuotes = defineAction listQuotes_schema listQuotes_handler"

subsection \<open>The object \<^verbatim>\<open>server\<close>: the seven actions\<close>

datatype request =
    CreateCollection createCollection_input
  | UpdateCollection updateCollection_input
  | ListCollections
  | CreateQuote createQuote_input
  | UpdateQuote updateQuote_input
  | DeleteQuote deleteQuote_input
  | ListQuotes listQuotes_input

datatype response =
    Collection "collection_row option"
  | Collections "collection_row list" nat
  | Quote "quote_row option"
  | QuoteItems "quote_row list" nat
  | Done

definition reply :: "('a \<Rightarrow> response) \<Rightarrow> (error + 'a) \<times> store \<Rightarrow> (error + response) \<times> store" where
  "reply f r = (case r of (Inl e, s) \<Rightarrow> (Inl e, s) | (Inr x, s) \<Rightarrow> (Inr (f x), s))"

text \<open>
  One call of one action: \<open>uuid\<close> and \<open>now\<close> are what the environment would give the
  call, were it to ask.
\<close>

fun server :: "string \<Rightarrow> date \<Rightarrow> request \<Rightarrow> api_context \<Rightarrow> store \<Rightarrow> (error + response) \<times> store" where
  "server uuid now (CreateCollection i) context s = reply Collection (createCollection uuid now i context s)"
| "server uuid now (UpdateCollection i) context s = reply Collection (updateCollection now i context s)"
| "server uuid now ListCollections context s =
     reply (\<lambda>(items, total). Collections items total) (listCollections () context s)"
| "server uuid now (CreateQuote i) context s = reply Quote (createQuote uuid now i context s)"
| "server uuid now (UpdateQuote i) context s = reply Quote (updateQuote now i context s)"
| "server uuid now (DeleteQuote i) context s = reply (\<lambda>_. Done) (deleteQuote i context s)"
| "server uuid now (ListQuotes i) context s =
     reply (\<lambda>(items, total). QuoteItems items total) (listQuotes i context s)"

text \<open>The states of the store that calls of the actions reach from the empty tables.\<close>

inductive reachable :: "store \<Rightarrow> bool" where
  init: "reachable \<lparr>QuoteCollections = [], Quotes = []\<rparr>"
| call: "reachable s \<Longrightarrow> reachable (snd (server uuid now request context s))"

text \<open>The requests whose input the schema of their action accepts.\<close>

fun accepted :: "request \<Rightarrow> bool" where
  "accepted (CreateCollection i) = (\<not> isl (createCollection_schema i))"
| "accepted (UpdateCollection i) = (\<not> isl (updateCollection_schema i))"
| "accepted ListCollections = (\<not> isl (listCollections_schema ()))"
| "accepted (CreateQuote i) = (\<not> isl (createQuote_schema i))"
| "accepted (UpdateQuote i) = (\<not> isl (updateQuote_schema i))"
| "accepted (DeleteQuote i) = (\<not> isl (deleteQuote_schema i))"
| "accepted (ListQuotes i) = (\<not> isl (listQuotes_schema i))"

subsection \<open>The owner of a quote and of its collection\<close>

text \<open>The primary keys declared in \<^verbatim>\<open>src/db/tables.ts\<close>: no two rows of a table share an id.\<close>

definition primary_keys :: "store \<Rightarrow> bool" where
  "primary_keys s =
     (distinct (map c_id (QuoteCollections s)) \<and> distinct (map q_id (Quotes s)))"

text \<open>The collection a quote references, and whether its owner is the quote's owner.\<close>

definition parent :: "store \<Rightarrow> quote_row \<Rightarrow> collection_row option" where
  "parent s q = find (\<lambda>c. c_id c = q_collectionId q) (QuoteCollections s)"

definition owner_matches :: "store \<Rightarrow> quote_row \<Rightarrow> bool" where
  "owner_matches s q = (map_option c_userId (parent s q) = Some (q_userId q))"

subsection \<open>The writes with the ownership filter in the statement\<close>

text \<open>
  The variant of updateCollection whose final UPDATE has \<^verbatim>\<open>id\<close> and
  \<^verbatim>\<open>userId\<close> in its WHERE clause, and the variant of updateQuote whose final
  UPDATE has \<^verbatim>\<open>id\<close> and \<^verbatim>\<open>collectionId\<close> there. Everything else is as in
  the handlers above.
\<close>

definition updateCollection_handler_scoped ::
  "date \<Rightarrow> updateCollection_input \<Rightarrow> api_context \<Rightarrow> store \<Rightarrow>
   (error + collection_row option) \<times> store" where
  "updateCollection_handler_scoped now input context s =
     (case requireUser context of
        Inl e \<Rightarrow> (Inl e, s)
      | Inr u \<Rightarrow>
          (case getOwnedCollection (uc_id input) (u_id u) s of
             Inl e \<Rightarrow> (Inl e, s)
           | Inr _ \<Rightarrow>
               (case db_update (updateCollection_set input now)
                       (\<lambda>c. c_id c = uc_id input \<and> c_userId c = u_id u) (QuoteCollections s) of
                  (rows, table) \<Rightarrow> (Inr (first rows), s\<lparr>QuoteCollections := table\<rparr>))))"

definition updateCollection_scoped ::
  "date \<Rightarrow> updateCollection_input \<Rightarrow> api_context \<Rightarrow> store \<Rightarrow>
   (error + collection_row option) \<times> store" where
  "updateCollection_scoped now =
     defineAction updateCollection_schema (updateCollection_handler_scoped now)"

definition updateQuote_handler_scoped ::
  "date \<Rightarrow> updateQuote_input \<Rightarrow> api_context \<Rightarrow> store \<Rightarrow>
   (error + quote_row option) \<times> store" where
  "updateQuote_handler_scoped now input context s =
     (case requireUser context of
        Inl e \<Rightarrow> (Inl e, s)
      | Inr u \<Rightarrow>
          (case getOwnedCollection (uq_collectionId input) (u_id u) s of
             Inl e \<Rightarrow> (Inl e, s)
           | Inr _ \<Rightarrow>
               (case first (db_select
                              (\<lambda>q. q_id q = uq_id input \<and> q_collectionId q = uq_collectionId input)
                              (Quotes s)) of
                  None \<Rightarrow> (Inl (ActionError NOT_FOUND ''Quote not found.''), s)
                | Some existing \<Rightarrow>
                    (case db_update (updateQuote_set input now)
                            (\<lambda>q. q_id q = uq_id input \<and>
                                 q_collectionId q = uq_collectionId input) (Quotes s) of
                       (rows, table) \<Rightarrow> (Inr (first rows), s\<lparr>Quotes := table\<rparr>)))))"

definition updateQuote_scoped ::
  "date \<Rightarrow> updateQuote_input \<Rightarrow> api_context \<Rightarrow> store \<Rightarrow>
   (error + quote_row option) \<times> store" where
  "updateQuote_scoped now = defineAction updateQuote_schema (updateQuote_handler_scoped now)"

subsection \<open>Example data\<close>

text \<open>Two users, their collections and a quote each, and a request without identity.\<close>

definition alice :: api_context where
  "alice = \<lparr>locals = Some \<lparr>user = Some \<lparr>u_id = ''alice''\<rparr>\<rparr>\<rparr>"

definition bob :: api_context where
  "bob = \<lparr>locals = Some \<lparr>user = Some \<lparr>u_id = ''bob''\<rparr>\<rparr>\<rparr>"

definition anonymous :: api_context where
  "anonymous = \<lparr>locals = Some \<lparr>user = None\<rparr>\<rparr>"

definition motivation :: collection_row where
  "motivation = \<lparr>c_id = ''c1'', c_userId = ''alice'', c_name = ''Motivation'',
     c_description = None, c_icon = None, c_isDefault = False, c_createdAt = 10, c_updatedAt = 10\<rparr>"

definition leadership :: collection_row where
  "leadership = \<lparr>c_id = ''c2'', c_userId = ''bob'', c_name = ''Leadership'',
     c_description = None, c_icon = None, c_isDefault = True, c_createdAt = 11, c_updatedAt = 11\<rparr>"

definition calm :: collection_row where
  "calm = \<lparr>c_id = ''c3'', c_userId = ''alice'', c_name = ''Calm'',
     c_description = Some ''quiet ones'', c_icon = None, c_isDefault = False,
     c_createdAt = 12, c_updatedAt = 12\<rparr>"

definition keep_going :: quote_row where
  "keep_going = \<lparr>q_id = ''q1'', q_collectionId = ''c1'', q_userId = ''alice'',
     q_text = ''Keep going'', q_attributedTo = Some ''Astra'', q_mood = None, q_tags = None,
     q_language = None, q_isFavorite = True, q_isPublic = False,
     q_createdAt = 13, q_updatedAt = 13\<rparr>"

definition lead_on :: quote_row where
  "lead_on = \<lparr>q_id = ''q2'', q_collectionId = ''c2'', q_userId = ''bob'',
     q_text = ''Lead on'', q_attributedTo = None, q_mood = Some ''calm'', q_tags = None,
     q_language = None, q_isFavorite = False, q_isPublic = False,
     q_createdAt = 14, q_updatedAt = 14\<rparr>"

definition empty_store :: store where
  "empty_store = \<lparr>QuoteCollections = [], Quotes = []\<rparr>"

definition example_store :: store where
  "example_store = \<lparr>QuoteCollections = [motivation, leadership, calm], Quotes = [keep_going, lead_on]\<rparr>"

lemmas example_defs = alice_def bob_def anonymous_def motivation_def leadership_def calm_def
  keep_going_def lead_on_def empty_store_def example_store_def

lemmas action_defs = defineAction_def requireUser_def getOwnedCollection_def first_def
  db_select_def db_update_def db_delete_def insert_QuoteCollections_def insert_Quotes_def min1_def
  reply_def

section \<open>Properties\<close>

subsection \<open>The helpers and the statements\<close>

lemma first_eq_None: "first rows = None \<longleftrightarrow> rows = []"
  by (simp add: first_def split: list.splits)

lemma first_Some_mem: "first rows = Some x \<Longrightarrow> x \<in> set rows"
  by (auto simp: first_def split: list.splits)

lemma getOwnedCollection_not_found:
  "db_select (\<lambda>c. c_id c = collectionId \<and> c_userId c = userId) (QuoteCollections s) = [] \<Longrightarrow>
   getOwnedCollection collectionId userId s = Inl (ActionError NOT_FOUND ''Collection not found.'')"
  by (simp add: getOwnedCollection_def first_def)

lemma getOwnedCollection_found:
  "getOwnedCollection collectionId userId s = Inr c \<Longrightarrow>
   c \<in> set (QuoteCollections s) \<and> c_id c = collectionId \<and> c_userId c = userId"
  by (auto simp: getOwnedCollection_def db_select_def split: option.splits dest!: first_Some_mem)

lemma getOwnedCollection_error:
  "getOwnedCollection collectionId userId s = Inl e \<Longrightarrow>
   e = ActionError NOT_FOUND ''Collection not found.''"
  by (auto simp: getOwnedCollection_def split: option.splits)

lemma requireUser_error:
  "requireUser context = Inl e \<Longrightarrow>
   e = ActionError UNAUTHORIZED ''You must be signed in to perform this action.''"
  by (auto simp: requireUser_def split: option.splits)

lemma db_delete_none:
  "db_delete p rows = (0, table) \<Longrightarrow> table = rows"
  by (auto simp: db_delete_def filter_empty_conv filter_id_conv)

lemma createCollection_fail: "createCollection uuid now i context s = (Inl e, s') \<Longrightarrow> s' = s"
  by (auto simp: createCollection_def defineAction_def createCollection_handler_def
      split: sum.splits prod.splits)

lemma updateCollection_fail: "updateCollection now i context s = (Inl e, s') \<Longrightarrow> s' = s"
  by (auto simp: updateCollection_def defineAction_def updateCollection_handler_def
      split: sum.splits prod.splits)

lemma listCollections_fail: "listCollections i context s = (r, s') \<Longrightarrow> s' = s"
  by (auto simp: listCollections_def defineAction_def listCollections_handler_def Let_def
      split: sum.splits prod.splits)

lemma createQuote_fail: "createQuote uuid now i context s = (Inl e, s') \<Longrightarrow> s' = s"
  by (auto simp: createQuote_def defineAction_def createQuote_handler_def
      split: sum.splits prod.splits)

lemma updateQuote_fail: "updateQuote now i context s = (Inl e, s') \<Longrightarrow> s' = s"
  by (auto simp: updateQuote_def defineAction_def updateQuote_handler_def
      split: sum.splits prod.splits option.splits)

lemma deleteQuote_fail: "deleteQuote i context s = (Inl e, s') \<Longrightarrow> s' = s"
  by (auto simp: deleteQuote_def defineAction_def deleteQuote_handler_def
      split: sum.splits prod.splits if_splits dest!: db_delete_none)

lemma listQuotes_fail: "listQuotes i context s = (r, s') \<Longrightarrow> s' = s"
  by (auto simp: listQuotes_def defineAction_def listQuotes_handler_def Let_def
      split: sum.splits prod.splits)

lemma reply_Inl: "reply f r = (Inl e, s') \<Longrightarrow> r = (Inl e, s')"
  by (auto simp: reply_def split: prod.splits sum.splits)

subsection \<open>A failing call leaves the store as it was\<close>

text \<open>
  C3. Whatever the action and its input, a call that fails (an input the schema rejects,
  UNAUTHORIZED, NOT_FOUND, or the store refusing an insert) returns the store it was
  given: nothing is half applied. For deleteQuote the delete statement has run before the
  error is thrown; it matched no row, so the table it leaves is the table it found.
\<close>

theorem failure_leaves_store:
  "server uuid now request context s = (Inl e, s') \<Longrightarrow> s' = s"
  by (cases request)
    (auto dest!: reply_Inl
      dest: createCollection_fail updateCollection_fail listCollections_fail createQuote_fail
        updateQuote_fail deleteQuote_fail listQuotes_fail)


theorem failure_leaves_store_witness:
  "fst (server ''q9'' 20 (DeleteQuote \<lparr>dq_id = ''q1'', dq_collectionId = ''c2''\<rparr>) bob example_store)
     = Inl (ActionError NOT_FOUND ''Quote not found.'') \<and>
   snd (server ''q9'' 20 (DeleteQuote \<lparr>dq_id = ''q1'', dq_collectionId = ''c2''\<rparr>) bob example_store)
     = example_store"
proof -
  let ?r = "server ''q9'' 20 (DeleteQuote \<lparr>dq_id = ''q1'', dq_collectionId = ''c2''\<rparr>) bob example_store"
  have f: "fst ?r = Inl (ActionError NOT_FOUND ''Quote not found.'')"
    by (simp add: deleteQuote_def deleteQuote_schema_def deleteQuote_handler_def
        action_defs example_defs)
  then have "?r = (Inl (ActionError NOT_FOUND ''Quote not found.''), snd ?r)"
    by (metis prod.collapse)
  then have "snd ?r = example_store"
    by (rule failure_leaves_store)
  with f show ?thesis by simp
qed

lemma db_select_empty:
  "db_select p rows = [] \<longleftrightarrow> (\<forall>r\<in>set rows. \<not> p r)"
  by (simp add: db_select_def filter_empty_conv)

lemma requireUser_none:
  "Option.bind (locals context) user = None \<Longrightarrow>
   requireUser context = Inl (ActionError UNAUTHORIZED ''You must be signed in to perform this action.'')"
  by (simp add: requireUser_def)

lemma requireUser_alice: "requireUser alice = Inr \<lparr>u_id = ''alice''\<rparr>"
  by (simp add: requireUser_def alice_def)

lemma requireUser_bob: "requireUser bob = Inr \<lparr>u_id = ''bob''\<rparr>"
  by (simp add: requireUser_def bob_def)

subsection \<open>The Ownership Guard answers NOT_FOUND, whoever owns the collection\<close>

text \<open>
  C1, as the source has it. The guard is reached only by an input the schema of the
  action accepts. Bob owns \<open>c2\<close>, so no row has that id together with Alice's userId; yet
  Alice's updateCollection of \<open>c2\<close> without a field to update, and her deleteQuote under
  \<open>c2\<close> with an empty quote id, fail with the input error, not with NOT_FOUND.
\<close>

theorem guard_not_found_counterexample:
  "requireUser alice = Inr \<lparr>u_id = ''alice''\<rparr> \<and>
   db_select (\<lambda>c. c_id c = ''c2'' \<and> c_userId c = ''alice'') (QuoteCollections example_store) = [] \<and>
   updateCollection 20
     \<lparr>uc_id = ''c2'', uc_name = None, uc_description = None, uc_icon = None, uc_isDefault = None\<rparr>
     alice example_store = (Inl ActionInputError, example_store) \<and>
   deleteQuote \<lparr>dq_id = '''', dq_collectionId = ''c2''\<rparr> alice example_store
     = (Inl ActionInputError, example_store) \<and>
   Inl ActionInputError
     \<noteq> (Inl (ActionError NOT_FOUND ''Collection not found.'') :: error + unit)"
  by (simp add: updateCollection_def updateCollection_schema_def updateCollection_refine_def
      deleteQuote_def deleteQuote_schema_def action_defs example_defs)

text \<open>
  C1, amended. Take a signed-in caller and a collection id such that no row of
  QuoteCollections has both that id and the caller's userId: either no row has the id at
  all, or the rows that have it belong to someone else. Then \<open>getOwnedCollection\<close> fails
  with the code NOT_FOUND and the message ``Collection not found.'', and so does each of
  the five actions that call it (updateCollection, createQuote, updateQuote, deleteQuote,
  listQuotes) on an input its schema accepts, leaving the store as it was. The error is
  one constant value: it does not tell the two cases apart.
\<close>

theorem guard_not_found:
  assumes u: "requireUser context = Inr u"
    and none: "\<forall>c\<in>set (QuoteCollections s). c_id c = collectionId \<longrightarrow> c_userId c \<noteq> u_id u"
  shows "getOwnedCollection collectionId (u_id u) s
           = Inl (ActionError NOT_FOUND ''Collection not found.'') \<and>
         (updateCollection_schema upd_c = Inr upd_c' \<and> uc_id upd_c' = collectionId \<longrightarrow>
            updateCollection now upd_c context s
              = (Inl (ActionError NOT_FOUND ''Collection not found.''), s)) \<and>
         (createQuote_schema new_q = Inr new_q' \<and> cq_collectionId new_q' = collectionId \<longrightarrow>
            createQuote uuid now new_q context s
              = (Inl (ActionError NOT_FOUND ''Collection not found.''), s)) \<and>
         (updateQuote_schema upd_q = Inr upd_q' \<and> uq_collectionId upd_q' = collectionId \<longrightarrow>
            updateQuote now upd_q context s
              = (Inl (ActionError NOT_FOUND ''Collection not found.''), s)) \<and>
         (deleteQuote_schema del_q = Inr del_q' \<and> dq_collectionId del_q' = collectionId \<longrightarrow>
            deleteQuote del_q context s
              = (Inl (ActionError NOT_FOUND ''Collection not found.''), s)) \<and>
         (listQuotes_schema list_q = Inr list_q' \<and> lp_collectionId list_q' = collectionId \<longrightarrow>
            listQuotes list_q context s
              = (Inl (ActionError NOT_FOUND ''Collection not found.''), s))"
proof -
  from none have "db_select (\<lambda>c. c_id c = collectionId \<and> c_userId c = u_id u)
      (QuoteCollections s) = []"
    by (auto simp: db_select_empty)
  then have g: "getOwnedCollection collectionId (u_id u) s
      = Inl (ActionError NOT_FOUND ''Collection not found.'')"
    by (rule getOwnedCollection_not_found)
  have "updateCollection now upd_c context s
      = (Inl (ActionError NOT_FOUND ''Collection not found.''), s)"
    if "updateCollection_schema upd_c = Inr upd_c'" "uc_id upd_c' = collectionId"
    using that u g by (simp add: updateCollection_def defineAction_def updateCollection_handler_def)
  moreover have "createQuote uuid now new_q context s
      = (Inl (ActionError NOT_FOUND ''Collection not found.''), s)"
    if "createQuote_schema new_q = Inr new_q'" "cq_collectionId new_q' = collectionId"
    using that u g by (simp add: createQuote_def defineAction_def createQuote_handler_def)
  moreover have "updateQuote now upd_q context s
      = (Inl (ActionError NOT_FOUND ''Collection not found.''), s)"
    if "updateQuote_schema upd_q = Inr upd_q'" "uq_collectionId upd_q' = collectionId"
    using that u g by (simp add: updateQuote_def defineAction_def updateQuote_handler_def)
  moreover have "deleteQuote del_q context s
      = (Inl (ActionError NOT_FOUND ''Collection not found.''), s)"
    if "deleteQuote_schema del_q = Inr del_q'" "dq_collectionId del_q' = collectionId"
    using that u g by (simp add: deleteQuote_def defineAction_def deleteQuote_handler_def)
  moreover have "listQuotes list_q context s
      = (Inl (ActionError NOT_FOUND ''Collection not found.''), s)"
    if "listQuotes_schema list_q = Inr list_q'" "lp_collectionId list_q' = collectionId"
    using that u g by (simp add: listQuotes_def defineAction_def listQuotes_handler_def)
  ultimately show ?thesis using g by blast
qed

text \<open>Alice asks for Bob's collection \<open>c2\<close> and for \<open>c9\<close>, which nobody has.\<close>

theorem guard_not_found_witness:
  "deleteQuote \<lparr>dq_id = ''q2'', dq_collectionId = ''c2''\<rparr> alice example_store
     = (Inl (ActionError NOT_FOUND ''Collection not found.''), example_store) \<and>
   deleteQuote \<lparr>dq_id = ''q2'', dq_collectionId = ''c9''\<rparr> alice example_store
     = (Inl (ActionError NOT_FOUND ''Collection not found.''), example_store) \<and>
   listQuotes \<lparr>lq_collectionId = ''c2'', lq_favoritesOnly = None, lq_includePublic = None\<rparr>
       alice example_store
     = (Inl (ActionError NOT_FOUND ''Collection not found.''), example_store) \<and>
   listQuotes \<lparr>lq_collectionId = ''c9'', lq_favoritesOnly = None, lq_includePublic = None\<rparr>
       alice example_store
     = (Inl (ActionError NOT_FOUND ''Collection not found.''), example_store)"
proof -
  have other: "\<forall>c\<in>set (QuoteCollections example_store).
      c_id c = ''c2'' \<longrightarrow> c_userId c \<noteq> u_id \<lparr>u_id = ''alice''\<rparr>"
    by (simp add: example_defs)
  have missing: "\<forall>c\<in>set (QuoteCollections example_store).
      c_id c = ''c9'' \<longrightarrow> c_userId c \<noteq> u_id \<lparr>u_id = ''alice''\<rparr>"
    by (simp add: example_defs)
  have d2: "deleteQuote_schema \<lparr>dq_id = ''q2'', dq_collectionId = ''c2''\<rparr>
      = Inr \<lparr>dq_id = ''q2'', dq_collectionId = ''c2''\<rparr>"
    by (simp add: deleteQuote_schema_def min1_def)
  have d9: "deleteQuote_schema \<lparr>dq_id = ''q2'', dq_collectionId = ''c9''\<rparr>
      = Inr \<lparr>dq_id = ''q2'', dq_collectionId = ''c9''\<rparr>"
    by (simp add: deleteQuote_schema_def min1_def)
  have l2: "listQuotes_schema \<lparr>lq_collectionId = ''c2'', lq_favoritesOnly = None, lq_includePublic = None\<rparr>
      = Inr \<lparr>lp_collectionId = ''c2'', lp_favoritesOnly = False, lp_includePublic = False\<rparr>"
    by (simp add: listQuotes_schema_def min1_def)
  have l9: "listQuotes_schema \<lparr>lq_collectionId = ''c9'', lq_favoritesOnly = None, lq_includePublic = None\<rparr>
      = Inr \<lparr>lp_collectionId = ''c9'', lp_favoritesOnly = False, lp_includePublic = False\<rparr>"
    by (simp add: listQuotes_schema_def min1_def)
  note a = guard_not_found [OF requireUser_alice other,
      where del_q = "\<lparr>dq_id = ''q2'', dq_collectionId = ''c2''\<rparr>"
        and del_q' = "\<lparr>dq_id = ''q2'', dq_collectionId = ''c2''\<rparr>"
        and list_q = "\<lparr>lq_collectionId = ''c2'', lq_favoritesOnly = None, lq_includePublic = None\<rparr>"
        and list_q' = "\<lparr>lp_collectionId = ''c2'', lp_favoritesOnly = False, lp_includePublic = False\<rparr>"]
  note b = guard_not_found [OF requireUser_alice missing,
      where del_q = "\<lparr>dq_id = ''q2'', dq_collectionId = ''c9''\<rparr>"
        and del_q' = "\<lparr>dq_id = ''q2'', dq_collectionId = ''c9''\<rparr>"
        and list_q = "\<lparr>lq_collectionId = ''c9'', lq_favoritesOnly = None, lq_includePublic = None\<rparr>"
        and list_q' = "\<lparr>lp_collectionId = ''c9'', lp_favoritesOnly = False, lp_includePublic = False\<rparr>"]
  from a d2 l2 b d9 l9 show ?thesis by simp
qed

subsection \<open>An update without a field to update is rejected by the schema\<close>

text \<open>
  C5. An updateCollection input with none of name, description, icon, isDefault, and an
  updateQuote input with none of text, attributedTo, mood, tags, language, isFavorite,
  isPublic, fail with the input error in every context and every store, and the store is
  returned as it was. The schema alone decides: whatever handler stands behind it is not
  run, so neither the existence of the target nor its owner is looked at.
\<close>

theorem empty_patch_rejected:
  "updateCollection now
     \<lparr>uc_id = cid, uc_name = None, uc_description = None, uc_icon = None, uc_isDefault = None\<rparr>
     context s = (Inl ActionInputError, s) \<and>
   updateQuote now
     \<lparr>uq_id = qid, uq_collectionId = cid', uq_text = None, uq_attributedTo = None, uq_mood = None,
      uq_tags = None, uq_language = None, uq_isFavorite = None, uq_isPublic = None\<rparr>
     context s = (Inl ActionInputError, s) \<and>
   defineAction updateCollection_schema h
     \<lparr>uc_id = cid, uc_name = None, uc_description = None, uc_icon = None, uc_isDefault = None\<rparr>
     context s = (Inl ActionInputError, s) \<and>
   defineAction updateQuote_schema h'
     \<lparr>uq_id = qid, uq_collectionId = cid', uq_text = None, uq_attributedTo = None, uq_mood = None,
      uq_tags = None, uq_language = None, uq_isFavorite = None, uq_isPublic = None\<rparr>
     context s = (Inl ActionInputError, s)"
  by (simp add: updateCollection_def updateQuote_def defineAction_def updateCollection_schema_def
      updateQuote_schema_def updateCollection_refine_def updateQuote_refine_def)

theorem empty_patch_rejected_witness:
  "updateCollection 20
     \<lparr>uc_id = ''c2'', uc_name = None, uc_description = None, uc_icon = None, uc_isDefault = None\<rparr>
     alice example_store = (Inl ActionInputError, example_store) \<and>
   updateQuote 20
     \<lparr>uq_id = ''q1'', uq_collectionId = ''c1'', uq_text = None, uq_attributedTo = None,
      uq_mood = None, uq_tags = None, uq_language = None, uq_isFavorite = None,
      uq_isPublic = None\<rparr>
     alice example_store = (Inl ActionInputError, example_store)"
  using empty_patch_rejected [of 20 "''c2''" alice example_store "''q1''" "''c1''"]
  by blast

subsection \<open>A quote is looked up under the collection the caller names\<close>

text \<open>
  C6, as the source has it. The lookup of the quote is reached only by an input the
  schema accepts. Alice owns \<open>c3\<close> and no quote has the id \<open>q1\<close> under \<open>c3\<close>; yet her
  updateQuote of \<open>q1\<close> under \<open>c3\<close> without a field to update, and her deleteQuote under
  \<open>c3\<close> with an empty quote id, fail with the input error, not with NOT_FOUND.
\<close>

theorem quote_not_found_counterexample:
  "requireUser alice = Inr \<lparr>u_id = ''alice''\<rparr> \<and>
   getOwnedCollection ''c3'' ''alice'' example_store = Inr calm \<and>
   db_select (\<lambda>q. q_id q = ''q1'' \<and> q_collectionId q = ''c3'') (Quotes example_store) = [] \<and>
   updateQuote 20
     \<lparr>uq_id = ''q1'', uq_collectionId = ''c3'', uq_text = None, uq_attributedTo = None,
      uq_mood = None, uq_tags = None, uq_language = None, uq_isFavorite = None,
      uq_isPublic = None\<rparr>
     alice example_store = (Inl ActionInputError, example_store) \<and>
   deleteQuote \<lparr>dq_id = '''', dq_collectionId = ''c3''\<rparr> alice example_store
     = (Inl ActionInputError, example_store) \<and>
   Inl ActionInputError
     \<noteq> (Inl (ActionError NOT_FOUND ''Quote not found.'') :: error + unit)"
  by (simp add: updateQuote_def updateQuote_schema_def updateQuote_refine_def
      deleteQuote_def deleteQuote_schema_def action_defs example_defs)

text \<open>
  C6, amended. The caller is signed in and owns the collection named in the input. If no
  row of Quotes has both the id and the collectionId of the input (the id may well exist
  under another collection), updateQuote and deleteQuote, on an input their schema
  accepts, fail with NOT_FOUND ``Quote not found.'' and return the store unchanged, so
  the quote under the other collection is still there.
\<close>

theorem quote_not_found:
  assumes u: "requireUser context = Inr u"
    and own: "getOwnedCollection collectionId (u_id u) s = Inr c"
    and none: "\<forall>q\<in>set (Quotes s). q_id q = quoteId \<longrightarrow> q_collectionId q \<noteq> collectionId"
  shows "(updateQuote_schema upd = Inr upd' \<and> uq_id upd' = quoteId \<and> uq_collectionId upd' = collectionId \<longrightarrow>
            updateQuote now upd context s = (Inl (ActionError NOT_FOUND ''Quote not found.''), s)) \<and>
         (deleteQuote_schema del = Inr del' \<and> dq_id del' = quoteId \<and> dq_collectionId del' = collectionId \<longrightarrow>
            deleteQuote del context s = (Inl (ActionError NOT_FOUND ''Quote not found.''), s))"
proof -
  from none have sel: "filter (\<lambda>q. q_id q = quoteId \<and> q_collectionId q = collectionId) (Quotes s) = []"
    by (auto simp: filter_empty_conv)
  from none have keep: "filter (\<lambda>q. \<not> (q_id q = quoteId \<and> q_collectionId q = collectionId)) (Quotes s)
      = Quotes s"
    by (auto simp: filter_id_conv)
  have "updateQuote now upd context s = (Inl (ActionError NOT_FOUND ''Quote not found.''), s)"
    if "updateQuote_schema upd = Inr upd'" "uq_id upd' = quoteId" "uq_collectionId upd' = collectionId"
    using that u own sel
    by (simp add: updateQuote_def defineAction_def updateQuote_handler_def db_select_def first_def)
  moreover have "deleteQuote del context s = (Inl (ActionError NOT_FOUND ''Quote not found.''), s)"
    if "deleteQuote_schema del = Inr del'" "dq_id del' = quoteId" "dq_collectionId del' = collectionId"
    using that u own sel keep
    by (simp add: deleteQuote_def defineAction_def deleteQuote_handler_def db_delete_def)
  ultimately show ?thesis by blast
qed

text \<open>Alice owns \<open>c3\<close>, and her quote \<open>q1\<close> is under \<open>c1\<close>.\<close>

theorem quote_not_found_witness:
  "updateQuote 20
     \<lparr>uq_id = ''q1'', uq_collectionId = ''c3'', uq_text = None, uq_attributedTo = None,
      uq_mood = Some ''bold'', uq_tags = None, uq_language = None, uq_isFavorite = None,
      uq_isPublic = None\<rparr>
     alice example_store = (Inl (ActionError NOT_FOUND ''Quote not found.''), example_store) \<and>
   deleteQuote \<lparr>dq_id = ''q1'', dq_collectionId = ''c3''\<rparr> alice example_store
     = (Inl (ActionError NOT_FOUND ''Quote not found.''), example_store) \<and>
   keep_going \<in> set (Quotes example_store) \<and> q_id keep_going = ''q1''"
proof -
  have own: "getOwnedCollection ''c3'' (u_id \<lparr>u_id = ''alice''\<rparr>) example_store = Inr calm"
    by (simp add: getOwnedCollection_def db_select_def first_def example_defs)
  have none: "\<forall>q\<in>set (Quotes example_store). q_id q = ''q1'' \<longrightarrow> q_collectionId q \<noteq> ''c3''"
    by (simp add: example_defs)
  let ?u = "\<lparr>uq_id = ''q1'', uq_collectionId = ''c3'', uq_text = None, uq_attributedTo = None,
      uq_mood = Some ''bold'', uq_tags = None, uq_language = None, uq_isFavorite = None,
      uq_isPublic = None\<rparr>"
  let ?d = "\<lparr>dq_id = ''q1'', dq_collectionId = ''c3''\<rparr>"
  have su: "updateQuote_schema ?u = Inr ?u"
    by (simp add: updateQuote_schema_def updateQuote_refine_def min1_def)
  have sd: "deleteQuote_schema ?d = Inr ?d"
    by (simp add: deleteQuote_schema_def min1_def)
  note a = quote_not_found [OF requireUser_alice own none,
      where upd = ?u and upd' = ?u and del = ?d and del' = ?d]
  have "keep_going \<in> set (Quotes example_store) \<and> q_id keep_going = ''q1''"
    by (simp add: example_defs)
  with a su sd show ?thesis by simp
qed

subsection \<open>Without identity: UNAUTHORIZED, once the schema has accepted the input\<close>

lemma schema_rejects:
  "\<not> accepted request \<Longrightarrow> server uuid now request ctx s = (Inl ActionInputError, s)"
  by (cases request)
    (auto simp: reply_def defineAction_def createCollection_def updateCollection_def
      listCollections_def createQuote_def updateQuote_def deleteQuote_def listQuotes_def
      createCollection_schema_def updateCollection_schema_def listCollections_schema_def
      createQuote_schema_def updateQuote_schema_def deleteQuote_schema_def listQuotes_schema_def
      split: if_splits)

lemma no_identity_accepted:
  assumes "Option.bind (locals ctx) user = None" and "accepted request"
  shows "server uuid now request ctx s
    = (Inl (ActionError UNAUTHORIZED ''You must be signed in to perform this action.''), s)"
  using assms(2) requireUser_none [OF assms(1)]
  by (cases request)
    (auto simp: reply_def defineAction_def createCollection_def createCollection_handler_def
      updateCollection_def updateCollection_handler_def listCollections_def
      listCollections_handler_def createQuote_def createQuote_handler_def updateQuote_def
      updateQuote_handler_def deleteQuote_def deleteQuote_handler_def listQuotes_def
      listQuotes_handler_def split: sum.splits)

text \<open>
  C7, as the source has it. \<open>requireUser\<close> is the first statement of each of the seven
  handlers, and the handler runs on what the schema made of the input. A request without
  identity whose input the schema rejects fails with the input error, not with
  UNAUTHORIZED: here createCollection with an empty name.
\<close>

theorem unauthorized_first_counterexample:
  "Option.bind (locals anonymous) user = None \<and>
   server ''c4'' 20
     (CreateCollection \<lparr>cc_name = '''', cc_description = None, cc_icon = None, cc_isDefault = None\<rparr>)
     anonymous example_store = (Inl ActionInputError, example_store) \<and>
   Inl ActionInputError
     \<noteq> (Inl (ActionError UNAUTHORIZED ''You must be signed in to perform this action.'')
          :: error + response)"
  by (simp add: anonymous_def createCollection_def createCollection_schema_def defineAction_def
      min1_def reply_def)

text \<open>
  C7, amended. For each of the seven actions: an input that the schema of the action
  rejects makes the call fail with the input error, whether or not the context has a
  user; and for every input the schema accepts, a context without a user makes the call
  fail with UNAUTHORIZED. In both cases the store is returned as it was. The identity
  check is the first statement of the handler, and the handler runs once the schema has
  accepted the input.
\<close>

theorem unauthorized_after_schema:
  "(\<not> accepted request \<longrightarrow> server uuid now request ctx s = (Inl ActionInputError, s)) \<and>
   (accepted request \<and> Option.bind (locals ctx) user = None \<longrightarrow>
      server uuid now request ctx s
        = (Inl (ActionError UNAUTHORIZED ''You must be signed in to perform this action.''), s))"
  using schema_rejects [of request uuid now ctx s] no_identity_accepted [of ctx request uuid now s]
  by blast

theorem unauthorized_after_schema_witness:
  "server ''c4'' 20
     (CreateCollection \<lparr>cc_name = ''Wit'', cc_description = None, cc_icon = None, cc_isDefault = None\<rparr>)
     anonymous example_store
     = (Inl (ActionError UNAUTHORIZED ''You must be signed in to perform this action.''),
        example_store) \<and>
   server ''c4'' 20 (DeleteQuote \<lparr>dq_id = ''q1'', dq_collectionId = ''c1''\<rparr>)
     \<lparr>locals = None\<rparr> example_store
     = (Inl (ActionError UNAUTHORIZED ''You must be signed in to perform this action.''),
        example_store) \<and>
   server ''c4'' 20
     (CreateCollection \<lparr>cc_name = '''', cc_description = None, cc_icon = None, cc_isDefault = None\<rparr>)
     anonymous example_store = (Inl ActionInputError, example_store) \<and>
   server ''c4'' 20
     (CreateCollection \<lparr>cc_name = '''', cc_description = None, cc_icon = None, cc_isDefault = None\<rparr>)
     alice example_store = (Inl ActionInputError, example_store)"
proof -
  let ?ok = "CreateCollection
      \<lparr>cc_name = ''Wit'', cc_description = None, cc_icon = None, cc_isDefault = None\<rparr>"
  let ?del = "DeleteQuote \<lparr>dq_id = ''q1'', dq_collectionId = ''c1''\<rparr>"
  let ?bad = "CreateCollection
      \<lparr>cc_name = '''', cc_description = None, cc_icon = None, cc_isDefault = None\<rparr>"
  have a: "Option.bind (locals anonymous) user = None"
    by (simp add: anonymous_def)
  have b: "Option.bind (locals \<lparr>locals = None\<rparr>) user = None"
    by simp
  have c: "accepted ?ok"
    by (simp add: createCollection_schema_def min1_def)
  have d: "accepted ?del"
    by (simp add: deleteQuote_schema_def min1_def)
  have e: "\<not> accepted ?bad"
    by (simp add: createCollection_schema_def min1_def)
  from unauthorized_after_schema [of ?ok "''c4''" 20 anonymous example_store] a c
  have 1: "server ''c4'' 20 ?ok anonymous example_store
      = (Inl (ActionError UNAUTHORIZED ''You must be signed in to perform this action.''),
         example_store)"
    by blast
  from unauthorized_after_schema [of ?del "''c4''" 20 "\<lparr>locals = None\<rparr>" example_store] b d
  have 2: "server ''c4'' 20 ?del \<lparr>locals = None\<rparr> example_store
      = (Inl (ActionError UNAUTHORIZED ''You must be signed in to perform this action.''),
         example_store)"
    by blast
  from unauthorized_after_schema [of ?bad "''c4''" 20 anonymous example_store] e
  have 3: "server ''c4'' 20 ?bad anonymous example_store = (Inl ActionInputError, example_store)"
    by blast
  from unauthorized_after_schema [of ?bad "''c4''" 20 alice example_store] e
  have 4: "server ''c4'' 20 ?bad alice example_store = (Inl ActionInputError, example_store)"
    by blast
  from 1 2 3 4 show ?thesis
    by (intro conjI)
qed

subsection \<open>What a successful updateQuote does\<close>

lemma updateQuote_schema_Inr: "updateQuote_schema i = Inr p \<Longrightarrow> p = i"
  by (auto simp: updateQuote_schema_def split: if_splits)

lemma first_filter_Some:
  "q \<in> set rows \<Longrightarrow> p q \<Longrightarrow> \<exists>x. first (filter p rows) = Some x \<and> x \<in> set rows \<and> p x"
proof (cases "filter p rows")
  case Nil
  assume "q \<in> set rows" "p q"
  with Nil show ?thesis by (auto simp: filter_empty_conv)
next
  case (Cons a list)
  have "a \<in> set (filter p rows)" unfolding Cons by simp
  then have "a \<in> set rows \<and> p a" by simp
  with Cons show ?thesis by (simp add: first_def)
qed

lemma and_filters_fun: "and_filters fs = (\<lambda>r. list_all (\<lambda>f. f r) fs)"
  by (rule ext) (simp add: and_filters_def)

lemma updateQuote_success:
  assumes "updateQuote now i context s = (Inr r, s')"
  shows "updateQuote_schema i = Inr i \<and>
    (\<exists>q\<in>set (Quotes s). q_id q = uq_id i \<and> r = Some (updateQuote_set i now q)) \<and>
    s' = s\<lparr>Quotes := map (\<lambda>q. if q_id q = uq_id i then updateQuote_set i now q else q) (Quotes s)\<rparr>"
proof -
  from assms obtain p where p: "updateQuote_schema i = Inr p"
    by (auto simp: updateQuote_def defineAction_def split: sum.splits)
  then have pi: "p = i" by (rule updateQuote_schema_Inr)
  from assms p pi have h: "updateQuote_handler now i context s = (Inr r, s')"
    by (simp add: updateQuote_def defineAction_def)
  then obtain e where e: "first (db_select (\<lambda>q. q_id q = uq_id i \<and> q_collectionId q = uq_collectionId i)
      (Quotes s)) = Some e"
    by (auto simp: updateQuote_handler_def split: sum.splits option.splits)
  then have "e \<in> set (Quotes s)" "q_id e = uq_id i"
    by (auto simp: db_select_def dest!: first_Some_mem)
  then obtain x where x: "first (filter (\<lambda>q. q_id q = uq_id i) (Quotes s)) = Some x"
      "x \<in> set (Quotes s)" "q_id x = uq_id i"
    using first_filter_Some [of e "Quotes s" "\<lambda>q. q_id q = uq_id i"] by blast
  from x(1) have fx: "first (map (updateQuote_set i now) (filter (\<lambda>q. q_id q = uq_id i) (Quotes s)))
      = Some (updateQuote_set i now x)"
    by (auto simp: first_def split: list.splits)
  from h e fx have "r = Some (updateQuote_set i now x)"
    and "s' = s\<lparr>Quotes := map (\<lambda>q. if q_id q = uq_id i then updateQuote_set i now q else q) (Quotes s)\<rparr>"
    by (auto simp: updateQuote_handler_def db_update_def split: sum.splits option.splits)
  with p pi x show ?thesis by blast
qed

lemma updateQuote_runs:
  assumes "updateQuote_schema i = Inr i"
    and "requireUser context = Inr u"
    and "getOwnedCollection (uq_collectionId i) (u_id u) s = Inr c"
    and "q \<in> set (Quotes s)" "q_id q = uq_id i" "q_collectionId q = uq_collectionId i"
  shows "\<exists>r. updateQuote now i context s =
    (Inr r, s\<lparr>Quotes := map (\<lambda>q. if q_id q = uq_id i then updateQuote_set i now q else q) (Quotes s)\<rparr>)"
proof -
  obtain e where "first (db_select (\<lambda>q. q_id q = uq_id i \<and> q_collectionId q = uq_collectionId i)
      (Quotes s)) = Some e"
    using first_filter_Some [of q "Quotes s" "\<lambda>q. q_id q = uq_id i \<and> q_collectionId q = uq_collectionId i"]
      assms(4-6) by (auto simp: db_select_def)
  with assms(1-3) show ?thesis
    by (simp add: updateQuote_def defineAction_def updateQuote_handler_def db_update_def)
qed

lemma getOwnedCollection_alice_c1:
  "getOwnedCollection ''c1'' (u_id \<lparr>u_id = ''alice''\<rparr>) example_store = Inr motivation"
  by (simp add: getOwnedCollection_def db_select_def first_def example_defs)

subsection \<open>Updating the mood alone\<close>

text \<open>
  C4. An updateQuote call gives, besides id and collectionId, the mood only, and
  succeeds. Then the table of collections is as before, and the table of quotes is the
  old one with, in the rows of that id, \<open>q_mood\<close> set to the given mood and
  \<open>q_updatedAt\<close> set to the time of the call: text, attributedTo, tags, language,
  isFavorite, isPublic, id, collectionId, userId and createdAt of the row keep their
  values, and every other row is untouched. The row returned is the updated one.
\<close>

theorem mood_only_update:
  assumes "uq_text i = None" "uq_attributedTo i = None" "uq_mood i = Some m" "uq_tags i = None"
    "uq_language i = None" "uq_isFavorite i = None" "uq_isPublic i = None"
    and run: "updateQuote now i context s = (Inr r, s')"
  shows "QuoteCollections s' = QuoteCollections s \<and>
    Quotes s' = map (\<lambda>q. if q_id q = uq_id i then q\<lparr>q_mood := Some m, q_updatedAt := now\<rparr> else q)
                  (Quotes s) \<and>
    (\<exists>q\<in>set (Quotes s). q_id q = uq_id i \<and> r = Some (q\<lparr>q_mood := Some m, q_updatedAt := now\<rparr>))"
proof -
  have set_eq: "updateQuote_set i now q = q\<lparr>q_mood := Some m, q_updatedAt := now\<rparr>" for q
    using assms(1-7) by (simp add: updateQuote_set_def)
  from updateQuote_success [OF run] show ?thesis
    by (simp add: set_eq)
qed

theorem mood_only_update_witness:
  "updateQuote 20
     \<lparr>uq_id = ''q1'', uq_collectionId = ''c1'', uq_text = None, uq_attributedTo = None,
      uq_mood = Some ''bold'', uq_tags = None, uq_language = None, uq_isFavorite = None,
      uq_isPublic = None\<rparr> alice example_store
   = (Inr (Some (keep_going\<lparr>q_mood := Some ''bold'', q_updatedAt := 20\<rparr>)),
      example_store\<lparr>Quotes := [keep_going\<lparr>q_mood := Some ''bold'', q_updatedAt := 20\<rparr>, lead_on]\<rparr>) \<and>
   Quotes (example_store\<lparr>Quotes := [keep_going\<lparr>q_mood := Some ''bold'', q_updatedAt := 20\<rparr>, lead_on]\<rparr>)
   = map (\<lambda>q. if q_id q = ''q1'' then q\<lparr>q_mood := Some ''bold'', q_updatedAt := 20\<rparr> else q)
       (Quotes example_store)"
proof -
  let ?i = "\<lparr>uq_id = ''q1'', uq_collectionId = ''c1'', uq_text = None, uq_attributedTo = None,
      uq_mood = Some ''bold'', uq_tags = None, uq_language = None, uq_isFavorite = None,
      uq_isPublic = None\<rparr>"
  have run: "updateQuote 20 ?i alice example_store
      = (Inr (Some (keep_going\<lparr>q_mood := Some ''bold'', q_updatedAt := 20\<rparr>)),
         example_store\<lparr>Quotes := [keep_going\<lparr>q_mood := Some ''bold'', q_updatedAt := 20\<rparr>, lead_on]\<rparr>)"
    by (simp add: updateQuote_def updateQuote_schema_def updateQuote_refine_def
        updateQuote_handler_def updateQuote_set_def action_defs example_defs)
  from mood_only_update [OF _ _ _ _ _ _ _ run, of "''bold''"] run show ?thesis
    by simp
qed

subsection \<open>updateQuote takes the empty text that createQuote refuses\<close>

text \<open>
  C9. An updateQuote input whose text is the empty string, with a non-empty id and
  collectionId, passes the schema: the text is present, which is all the refinement asks,
  and the field has no minimum length. When the caller owns the collection and the quote
  is there, the call succeeds and every stored row of that id (there is one) has the
  empty text afterwards. The schema of createQuote rejects the empty text.
\<close>

theorem update_accepts_empty_text:
  assumes "min1 (uq_id i)" "min1 (uq_collectionId i)" "uq_text i = Some []"
    and "requireUser context = Inr u"
    and "getOwnedCollection (uq_collectionId i) (u_id u) s = Inr c"
    and "q \<in> set (Quotes s)" "q_id q = uq_id i" "q_collectionId q = uq_collectionId i"
  shows "updateQuote_schema i = Inr i \<and>
    (\<exists>r. fst (updateQuote now i context s) = Inr r) \<and>
    (\<forall>q'\<in>set (Quotes (snd (updateQuote now i context s))). q_id q' = uq_id i \<longrightarrow> q_text q' = []) \<and>
    (\<exists>q'\<in>set (Quotes (snd (updateQuote now i context s))). q_id q' = uq_id i) \<and>
    createQuote_schema (j\<lparr>cq_text := []\<rparr>) = Inl ActionInputError"
proof -
  have ok: "updateQuote_schema i = Inr i"
    using assms(1-3) by (simp add: updateQuote_schema_def updateQuote_refine_def)
  from updateQuote_runs [OF ok assms(4-8), of now] obtain r where
    r: "updateQuote now i context s =
      (Inr r, s\<lparr>Quotes := map (\<lambda>q. if q_id q = uq_id i then updateQuote_set i now q else q) (Quotes s)\<rparr>)"
    by blast
  have t: "q_text (updateQuote_set i now x) = []" "q_id (updateQuote_set i now x) = q_id x" for x
    using assms(3) by (simp_all add: updateQuote_set_def)
  have "createQuote_schema (j\<lparr>cq_text := []\<rparr>) = Inl ActionInputError"
    by (simp add: createQuote_schema_def min1_def)
  moreover have "\<exists>q'\<in>set (Quotes (snd (updateQuote now i context s))). q_id q' = uq_id i"
    using r assms(6,7) t by (auto intro!: bexI [of _ "updateQuote_set i now q"])
  moreover have "\<forall>q'\<in>set (Quotes (snd (updateQuote now i context s))). q_id q' = uq_id i \<longrightarrow> q_text q' = []"
    using r t by auto
  ultimately show ?thesis using ok r by simp
qed

text \<open>Alice empties the text of her quote ``Keep going''.\<close>

theorem update_accepts_empty_text_witness:
  "q_text keep_going = ''Keep going'' \<and> keep_going \<in> set (Quotes example_store) \<and>
   updateQuote_schema
     \<lparr>uq_id = ''q1'', uq_collectionId = ''c1'', uq_text = Some [], uq_attributedTo = None,
      uq_mood = None, uq_tags = None, uq_language = None, uq_isFavorite = None,
      uq_isPublic = None\<rparr>
   = Inr \<lparr>uq_id = ''q1'', uq_collectionId = ''c1'', uq_text = Some [], uq_attributedTo = None,
      uq_mood = None, uq_tags = None, uq_language = None, uq_isFavorite = None,
      uq_isPublic = None\<rparr> \<and>
   Quotes (snd (updateQuote 20
     \<lparr>uq_id = ''q1'', uq_collectionId = ''c1'', uq_text = Some [], uq_attributedTo = None,
      uq_mood = None, uq_tags = None, uq_language = None, uq_isFavorite = None,
      uq_isPublic = None\<rparr> alice example_store))
   = [keep_going\<lparr>q_text := [], q_updatedAt := 20\<rparr>, lead_on] \<and>
   createQuote_schema
     \<lparr>cq_collectionId = ''c1'', cq_text = [], cq_attributedTo = None, cq_mood = None,
      cq_tags = None, cq_language = None, cq_isFavorite = None, cq_isPublic = None\<rparr>
   = Inl ActionInputError"
proof -
  let ?i = "\<lparr>uq_id = ''q1'', uq_collectionId = ''c1'', uq_text = Some [], uq_attributedTo = None,
      uq_mood = None, uq_tags = None, uq_language = None, uq_isFavorite = None,
      uq_isPublic = None\<rparr>"
  let ?j = "\<lparr>cq_collectionId = ''c1'', cq_text = ''Keep going'', cq_attributedTo = None,
      cq_mood = None, cq_tags = None, cq_language = None, cq_isFavorite = None,
      cq_isPublic = None\<rparr>"
  have a: "min1 (uq_id ?i)" "min1 (uq_collectionId ?i)" "uq_text ?i = Some []"
    by (simp_all add: min1_def)
  have own: "getOwnedCollection (uq_collectionId ?i) (u_id \<lparr>u_id = ''alice''\<rparr>) example_store
      = Inr motivation"
    using getOwnedCollection_alice_c1 by simp
  have q: "keep_going \<in> set (Quotes example_store)" "q_id keep_going = uq_id ?i"
      "q_collectionId keep_going = uq_collectionId ?i" "q_text keep_going = ''Keep going''"
    by (simp_all add: example_defs)
  have run: "Quotes (snd (updateQuote 20 ?i alice example_store))
      = [keep_going\<lparr>q_text := [], q_updatedAt := 20\<rparr>, lead_on]"
    by (simp add: updateQuote_def updateQuote_schema_def updateQuote_refine_def
        updateQuote_handler_def updateQuote_set_def action_defs example_defs)
  from update_accepts_empty_text [OF a requireUser_alice own q(1-3), where j = ?j and now = 20]
    q(1,4) run
  show ?thesis by simp
qed

subsection \<open>listQuotes with favoritesOnly\<close>

lemma listQuotes_default:
  "listQuotes \<lparr>lq_collectionId = cid, lq_favoritesOnly = None, lq_includePublic = None\<rparr> context s
     = (Inr (items, n), s') \<Longrightarrow>
   \<exists>u c. min1 cid \<and> requireUser context = Inr u \<and> getOwnedCollection cid (u_id u) s = Inr c \<and>
     items = filter (\<lambda>q. q_collectionId q = cid \<and> q_userId q = u_id u) (Quotes s)"
  by (auto simp: listQuotes_def defineAction_def listQuotes_schema_def listQuotes_handler_def
      listQuotes_filters_def and_filters_fun db_select_def Let_def
      split: sum.splits if_splits)

text \<open>
  C8, as the source has it. The favourites of a listing are all of it when every row of
  the listing is a favourite (and when it is empty): the two listings of Alice's
  collection \<open>c1\<close> are the same list, so the first is not a strict subset of the second.
\<close>

theorem favorites_strict_counterexample:
  "listQuotes \<lparr>lq_collectionId = ''c1'', lq_favoritesOnly = Some True, lq_includePublic = None\<rparr>
     alice example_store
   = listQuotes \<lparr>lq_collectionId = ''c1'', lq_favoritesOnly = None, lq_includePublic = None\<rparr>
     alice example_store \<and>
   listQuotes \<lparr>lq_collectionId = ''c1'', lq_favoritesOnly = None, lq_includePublic = None\<rparr>
     alice example_store = (Inr ([keep_going], 1), example_store) \<and>
   \<not> set [keep_going] \<subset> set [keep_going]"
  by (simp add: listQuotes_def listQuotes_schema_def listQuotes_handler_def listQuotes_filters_def
      and_filters_fun Let_def action_defs example_defs)

text \<open>
  C8, amended. When listQuotes with the default flags succeeds with the rows \<open>items\<close>,
  listQuotes with favoritesOnly true (whatever includePublic) succeeds with exactly the
  rows of \<open>items\<close> whose isFavorite is true, in the same order, and their number. That is
  a subset of \<open>items\<close>, and a strict one exactly when \<open>items\<close> has a row that is not a
  favourite.
\<close>

theorem favorites_listing:
  assumes "listQuotes \<lparr>lq_collectionId = cid, lq_favoritesOnly = None, lq_includePublic = None\<rparr>
      context s = (Inr (items, n), s')"
  shows "listQuotes \<lparr>lq_collectionId = cid, lq_favoritesOnly = Some True, lq_includePublic = ip\<rparr>
      context s = (Inr (filter q_isFavorite items, length (filter q_isFavorite items)), s) \<and>
    set (filter q_isFavorite items) \<subseteq> set items \<and>
    (set (filter q_isFavorite items) \<subset> set items) = (\<exists>q\<in>set items. \<not> q_isFavorite q)"
proof -
  from listQuotes_default [OF assms] obtain u c where
    h: "min1 cid" "requireUser context = Inr u" "getOwnedCollection cid (u_id u) s = Inr c"
      "items = filter (\<lambda>q. q_collectionId q = cid \<and> q_userId q = u_id u) (Quotes s)"
    by blast
  have "filter (and_filters (listQuotes_filters
      \<lparr>lp_collectionId = cid, lp_favoritesOnly = True, lp_includePublic = b\<rparr> u)) (Quotes s)
      = filter q_isFavorite items" for b
    by (simp add: h(4) and_filters_fun listQuotes_filters_def conj_commute conj_left_commute)
  with h(1-3) have "listQuotes \<lparr>lq_collectionId = cid, lq_favoritesOnly = Some True, lq_includePublic = ip\<rparr>
      context s = (Inr (filter q_isFavorite items, length (filter q_isFavorite items)), s)"
    by (simp add: listQuotes_def defineAction_def listQuotes_schema_def listQuotes_handler_def
        db_select_def Let_def)
  moreover have "(set (filter q_isFavorite items) \<subset> set items) = (\<exists>q\<in>set items. \<not> q_isFavorite q)"
    by auto
  ultimately show ?thesis by auto
qed

theorem favorites_listing_witness:
  "listQuotes \<lparr>lq_collectionId = ''c2'', lq_favoritesOnly = None, lq_includePublic = None\<rparr>
     bob example_store = (Inr ([lead_on], 1), example_store) \<and>
   listQuotes \<lparr>lq_collectionId = ''c2'', lq_favoritesOnly = Some True, lq_includePublic = None\<rparr>
     bob example_store = (Inr ([], 0), example_store)"
proof -
  have run: "listQuotes \<lparr>lq_collectionId = ''c2'', lq_favoritesOnly = None, lq_includePublic = None\<rparr>
     bob example_store = (Inr ([lead_on], 1), example_store)"
    by (simp add: listQuotes_def listQuotes_schema_def listQuotes_handler_def listQuotes_filters_def
        and_filters_fun Let_def action_defs example_defs)
  have "\<not> q_isFavorite lead_on"
    by (simp add: lead_on_def)
  with favorites_listing [OF run, of None] run show ?thesis
    by simp
qed

subsection \<open>What one call does to the store\<close>

lemma updateCollection_set_keeps [simp]:
  "c_id (updateCollection_set i now c) = c_id c"
  "c_userId (updateCollection_set i now c) = c_userId c"
  by (simp_all add: updateCollection_set_def)

lemma updateQuote_set_keeps [simp]:
  "q_id (updateQuote_set i now q) = q_id q"
  "q_userId (updateQuote_set i now q) = q_userId q"
  "q_collectionId (updateQuote_set i now q) = q_collectionId q"
  "q_createdAt (updateQuote_set i now q) = q_createdAt q"
  by (simp_all add: updateQuote_set_def)

lemma insert_QuoteCollections_Inr:
  "insert_QuoteCollections row s = Inr (rows, s') \<Longrightarrow>
   c_id row \<notin> c_id ` set (QuoteCollections s) \<and> rows = [row] \<and>
   s' = s\<lparr>QuoteCollections := QuoteCollections s @ [row]\<rparr>"
  by (auto simp: insert_QuoteCollections_def split: if_splits)

lemma insert_Quotes_Inr:
  "insert_Quotes row s = Inr (rows, s') \<Longrightarrow>
   q_id row \<notin> q_id ` set (Quotes s) \<and> rows = [row] \<and>
   s' = s\<lparr>Quotes := Quotes s @ [row]\<rparr>"
  by (auto simp: insert_Quotes_def split: if_splits)

lemma createCollection_step:
  "snd (createCollection uuid now i context s) = s \<or>
   (\<exists>row. c_id row \<notin> c_id ` set (QuoteCollections s) \<and>
      snd (createCollection uuid now i context s)
        = s\<lparr>QuoteCollections := QuoteCollections s @ [row]\<rparr>)"
  by (auto simp: createCollection_def defineAction_def createCollection_handler_def
      split: sum.splits dest!: insert_QuoteCollections_Inr)

lemma updateCollection_step:
  "snd (updateCollection now i context s) = s \<or>
   snd (updateCollection now i context s)
     = s\<lparr>QuoteCollections :=
          map (\<lambda>c. if c_id c = uc_id i then updateCollection_set i now c else c)
            (QuoteCollections s)\<rparr>"
  by (auto simp: updateCollection_def defineAction_def updateCollection_handler_def
      updateCollection_schema_def db_update_def split: sum.splits if_splits)

lemma createQuote_step:
  "snd (createQuote uuid now i context s) = s \<or>
   (\<exists>row c. q_id row \<notin> q_id ` set (Quotes s) \<and> c \<in> set (QuoteCollections s) \<and>
      c_id c = q_collectionId row \<and> c_userId c = q_userId row \<and>
      snd (createQuote uuid now i context s) = s\<lparr>Quotes := Quotes s @ [row]\<rparr>)"
proof (cases "createQuote uuid now i context s")
  case (Pair r s')
  show ?thesis
  proof (cases r)
    case (Inl e)
    with Pair have "s' = s" by (auto dest: createQuote_fail)
    with Pair show ?thesis by simp
  next
    case (Inr x)
    from Pair Inr obtain u c where
      u: "requireUser context = Inr u" and
      c: "getOwnedCollection (cq_collectionId i) (u_id u) s = Inr c"
      by (auto simp: createQuote_def defineAction_def createQuote_handler_def createQuote_schema_def
          split: sum.splits if_splits)
    from Pair Inr u c obtain row rows where
      ins: "insert_Quotes row s = Inr (rows, s')" and
      row: "q_collectionId row = cq_collectionId i" "q_userId row = u_id u"
      by (auto simp: createQuote_def defineAction_def createQuote_handler_def createQuote_schema_def
          split: sum.splits if_splits)
    from insert_Quotes_Inr [OF ins] have fresh: "q_id row \<notin> q_id ` set (Quotes s)"
      and s': "s' = s\<lparr>Quotes := Quotes s @ [row]\<rparr>"
      by simp_all
    from getOwnedCollection_found [OF c] row have "c \<in> set (QuoteCollections s)"
      "c_id c = q_collectionId row" "c_userId c = q_userId row"
      by simp_all
    with fresh s' Pair have "\<exists>row c. q_id row \<notin> q_id ` set (Quotes s) \<and>
        c \<in> set (QuoteCollections s) \<and> c_id c = q_collectionId row \<and>
        c_userId c = q_userId row \<and>
        snd (createQuote uuid now i context s) = s\<lparr>Quotes := Quotes s @ [row]\<rparr>"
      by (intro exI [of _ row] exI [of _ c]) simp
    then show ?thesis by (rule disjI2)
  qed
qed

lemma updateQuote_step:
  "snd (updateQuote now i context s) = s \<or>
   snd (updateQuote now i context s)
     = s\<lparr>Quotes := map (\<lambda>q. if q_id q = uq_id i then updateQuote_set i now q else q) (Quotes s)\<rparr>"
  by (auto simp: updateQuote_def defineAction_def updateQuote_handler_def
      updateQuote_schema_def db_update_def split: sum.splits if_splits option.splits)

lemma deleteQuote_step:
  "\<exists>p. snd (deleteQuote i context s) = s\<lparr>Quotes := filter p (Quotes s)\<rparr>"
proof (cases "snd (deleteQuote i context s) = s")
  case True
  then have "snd (deleteQuote i context s) = s\<lparr>Quotes := filter (\<lambda>_. True) (Quotes s)\<rparr>"
    by simp
  then show ?thesis by blast
next
  case False
  then have "snd (deleteQuote i context s) = s\<lparr>Quotes :=
      filter (\<lambda>q. \<not> (q_id q = dq_id i \<and> q_collectionId q = dq_collectionId i)) (Quotes s)\<rparr>"
    by (auto simp: deleteQuote_def defineAction_def deleteQuote_handler_def
        deleteQuote_schema_def db_delete_def split: sum.splits if_splits)
  then show ?thesis by blast
qed

lemma reply_snd: "snd (reply f r) = snd r"
  by (auto simp: reply_def split: prod.splits sum.splits)

lemma server_step:
  obtains
    (same) "snd (server uuid now request context s) = s"
  | (new_collection) row where "c_id row \<notin> c_id ` set (QuoteCollections s)"
      "snd (server uuid now request context s) = s\<lparr>QuoteCollections := QuoteCollections s @ [row]\<rparr>"
  | (upd_collection) i where
      "snd (server uuid now request context s)
        = s\<lparr>QuoteCollections :=
             map (\<lambda>c. if c_id c = uc_id i then updateCollection_set i now c else c)
               (QuoteCollections s)\<rparr>"
  | (new_quote) row c where "q_id row \<notin> q_id ` set (Quotes s)" "c \<in> set (QuoteCollections s)"
      "c_id c = q_collectionId row" "c_userId c = q_userId row"
      "snd (server uuid now request context s) = s\<lparr>Quotes := Quotes s @ [row]\<rparr>"
  | (upd_quote) i where
      "snd (server uuid now request context s)
        = s\<lparr>Quotes := map (\<lambda>q. if q_id q = uq_id i then updateQuote_set i now q else q) (Quotes s)\<rparr>"
  | (del_quote) p where
      "snd (server uuid now request context s) = s\<lparr>Quotes := filter p (Quotes s)\<rparr>"
proof (cases request)
  case (CreateCollection i)
  with createCollection_step [of uuid now i "context" s] same new_collection show ?thesis
    by (auto simp: reply_snd)
next
  case (UpdateCollection i)
  with updateCollection_step [of now i "context" s] same upd_collection show ?thesis
    by (auto simp: reply_snd)
next
  case ListCollections
  have "snd (listCollections () context s) = s"
    by (metis listCollections_fail prod.collapse)
  with ListCollections same show ?thesis by (simp add: reply_snd)
next
  case (CreateQuote i)
  with createQuote_step [of uuid now i "context" s] same new_quote show ?thesis
    by (auto simp: reply_snd)
next
  case (UpdateQuote i)
  with updateQuote_step [of now i "context" s] same upd_quote show ?thesis
    by (auto simp: reply_snd)
next
  case (DeleteQuote i)
  with deleteQuote_step [of i "context" s] del_quote show ?thesis
    by (auto simp: reply_snd)
next
  case (ListQuotes i)
  have "snd (listQuotes i context s) = s"
    by (metis listQuotes_fail prod.collapse)
  with ListQuotes same show ?thesis by (simp add: reply_snd)
qed

subsection \<open>The primary keys hold in every reachable store\<close>

lemma map_key_kept:
  "(\<And>x. k (g x) = k x) \<Longrightarrow> map k (map (\<lambda>x. if P x then g x else x) xs) = map k xs"
  by (induction xs) auto

lemma collection_ids_kept:
  "map c_id (map (\<lambda>c. if P c then updateCollection_set i now c else c) xs) = map c_id xs"
  by (rule map_key_kept) simp

lemma quote_ids_kept:
  "map q_id (map (\<lambda>q. if P q then updateQuote_set i now q else q) xs) = map q_id xs"
  by (rule map_key_kept) simp

lemma primary_keys_step:
  assumes "primary_keys s"
  shows "primary_keys (snd (server uuid now request context s))"
proof (cases rule: server_step [of uuid now request "context" s])
  case same
  with assms show ?thesis by simp
next
  case (new_collection row)
  with assms show ?thesis by (auto simp: primary_keys_def)
next
  case (upd_collection i)
  have "map c_id (QuoteCollections (snd (server uuid now request context s)))
      = map c_id (QuoteCollections s)"
    "Quotes (snd (server uuid now request context s)) = Quotes s"
    unfolding upd_collection by (simp_all del: map_map add: collection_ids_kept)
  with assms show ?thesis by (simp add: primary_keys_def)
next
  case (new_quote row c)
  with assms show ?thesis by (auto simp: primary_keys_def)
next
  case (upd_quote i)
  have "map q_id (Quotes (snd (server uuid now request context s))) = map q_id (Quotes s)"
    "QuoteCollections (snd (server uuid now request context s)) = QuoteCollections s"
    unfolding upd_quote by (simp_all del: map_map add: quote_ids_kept)
  with assms show ?thesis by (simp add: primary_keys_def)
next
  case (del_quote p)
  with assms show ?thesis by (simp add: primary_keys_def distinct_map_filter)
qed

lemma reachable_primary_keys: "reachable s \<Longrightarrow> primary_keys s"
proof (induction rule: reachable.induct)
  case init
  show ?case by (simp add: primary_keys_def)
next
  case (call s uuid now request ctx)
  then show ?case by (simp add: primary_keys_step)
qed

lemma find_snoc:
  "find P xs = Some x \<Longrightarrow> find P (xs @ ys) = Some x"
  by (induction xs) (auto split: if_splits)

lemma find_kept:
  "(\<And>x. P (g x) = P x) \<Longrightarrow> find P (map g xs) = map_option g (find P xs)"
  by (induction xs) auto

lemma find_unique:
  "distinct (map k xs) \<Longrightarrow> c \<in> set xs \<Longrightarrow> find (\<lambda>x. k x = k c) xs = Some c"
  by (induction xs) force+

lemma filter_unique:
  "distinct (map k xs) \<Longrightarrow> c \<in> set xs \<Longrightarrow> filter (\<lambda>x. k x = k c) xs = [c]"
proof (induction xs)
  case Nil
  then show ?case by simp
next
  case (Cons a xs)
  show ?case
  proof (cases "a = c")
    case True
    with Cons.prems have nin: "k c \<notin> k ` set xs" by simp
    have "k x \<noteq> k c" if "x \<in> set xs" for x
    proof
      assume e: "k x = k c"
      from that have "k x \<in> k ` set xs" by (rule imageI)
      with e nin show False by simp
    qed
    then have "\<forall>x\<in>set xs. k x \<noteq> k c" by blast
    then have "filter (\<lambda>x. k x = k c) xs = []" by (simp add: filter_empty_conv)
    with True show ?thesis by simp
  next
    case False
    with Cons.prems have "c \<in> set xs" "k a \<noteq> k c" by auto
    with Cons show ?thesis by simp
  qed
qed

lemma same_key:
  "distinct (map k xs) \<Longrightarrow> x \<in> set xs \<Longrightarrow> y \<in> set xs \<Longrightarrow> k x = k y \<Longrightarrow> x = y"
  by (auto simp: distinct_map dest: inj_onD)

subsection \<open>A quote belongs to the owner of its collection\<close>

lemma owner_matches_cong:
  "QuoteCollections s' = QuoteCollections s \<Longrightarrow> q_collectionId q' = q_collectionId q \<Longrightarrow>
   q_userId q' = q_userId q \<Longrightarrow> owner_matches s' q' = owner_matches s q"
  by (simp add: owner_matches_def parent_def)

lemma owner_matches_new_collection:
  assumes "owner_matches s q"
  shows "owner_matches (s\<lparr>QuoteCollections := QuoteCollections s @ [row]\<rparr>) q"
proof -
  from assms obtain c where "find (\<lambda>c. c_id c = q_collectionId q) (QuoteCollections s) = Some c"
    by (auto simp: owner_matches_def parent_def)
  then have "find (\<lambda>c. c_id c = q_collectionId q) (QuoteCollections s @ [row]) = Some c"
    by (rule find_snoc)
  with assms \<open>find _ (QuoteCollections s) = Some c\<close> show ?thesis
    by (simp add: owner_matches_def parent_def)
qed

lemma owner_matches_upd_collection:
  assumes "owner_matches s q"
  shows "owner_matches
    (s\<lparr>QuoteCollections := map (\<lambda>c. if P c then updateCollection_set i now c else c)
          (QuoteCollections s)\<rparr>) q"
proof -
  let ?g = "\<lambda>c. if P c then updateCollection_set i now c else c"
  from assms obtain c where
    c: "find (\<lambda>c. c_id c = q_collectionId q) (QuoteCollections s) = Some c"
      "c_userId c = q_userId q"
    by (auto simp: owner_matches_def parent_def)
  have "find (\<lambda>c. c_id c = q_collectionId q) (map ?g (QuoteCollections s))
    = map_option ?g (find (\<lambda>c. c_id c = q_collectionId q) (QuoteCollections s))"
    by (rule find_kept) simp
  with c(1) have "find (\<lambda>c. c_id c = q_collectionId q) (map ?g (QuoteCollections s))
    = Some (?g c)"
    by simp
  moreover have "c_userId (?g c) = c_userId c"
    by simp
  ultimately show ?thesis using c(2)
    by (simp add: owner_matches_def parent_def)
qed

lemma owner_matches_new_quote:
  assumes "distinct (map c_id (QuoteCollections s))" "c \<in> set (QuoteCollections s)"
    "c_id c = q_collectionId row" "c_userId c = q_userId row"
    and that: "QuoteCollections s' = QuoteCollections s"
  shows "owner_matches s' row"
proof -
  from find_unique [OF assms(1,2)] assms(3)
  have "find (\<lambda>x. c_id x = q_collectionId row) (QuoteCollections s) = Some c"
    by simp
  with that assms(4) show ?thesis
    by (simp add: owner_matches_def parent_def)
qed

lemma owner_step:
  assumes pk: "primary_keys s" and inv: "\<forall>q\<in>set (Quotes s). owner_matches s q"
  shows "\<forall>q\<in>set (Quotes (snd (server uuid now request context s))).
    owner_matches (snd (server uuid now request context s)) q"
proof (cases rule: server_step [of uuid now request "context" s])
  case same
  with inv show ?thesis by simp
next
  case (new_collection row)
  with inv show ?thesis by (simp add: owner_matches_new_collection)
next
  case (upd_collection i)
  with inv show ?thesis by (simp add: owner_matches_upd_collection)
next
  case (new_quote row c)
  let ?s' = "s\<lparr>Quotes := Quotes s @ [row]\<rparr>"
  from pk have "distinct (map c_id (QuoteCollections s))"
    by (simp add: primary_keys_def)
  from owner_matches_new_quote [OF this new_quote(2-4), of ?s']
  have "owner_matches ?s' row" by simp
  moreover have "owner_matches ?s' q" if "q \<in> set (Quotes s)" for q
    using inv that owner_matches_cong [of ?s' s q q] by simp
  ultimately show ?thesis unfolding new_quote(5) by auto
next
  case (upd_quote i)
  let ?g = "\<lambda>q. if q_id q = uq_id i then updateQuote_set i now q else q"
  let ?s' = "s\<lparr>Quotes := map ?g (Quotes s)\<rparr>"
  have "owner_matches ?s' x" if "x \<in> set (map ?g (Quotes s))" for x
  proof -
    from that obtain q where q: "q \<in> set (Quotes s)" "x = ?g q"
      by auto
    have "q_collectionId x = q_collectionId q" "q_userId x = q_userId q"
      using q(2) by simp_all
    with inv q(1) owner_matches_cong [of ?s' s x q] show ?thesis
      by simp
  qed
  then show ?thesis unfolding upd_quote by simp
next
  case (del_quote p)
  let ?s' = "s\<lparr>Quotes := filter p (Quotes s)\<rparr>"
  have "owner_matches ?s' q" if "q \<in> set (Quotes s)" for q
    using inv that owner_matches_cong [of ?s' s q q] by simp
  then show ?thesis unfolding del_quote by auto
qed

lemma reachable_owner: "reachable s \<Longrightarrow> \<forall>q\<in>set (Quotes s). owner_matches s q"
proof (induction rule: reachable.induct)
  case init
  show ?case by simp
next
  case (call s uuid now request ctx)
  then show ?case by (simp add: owner_step reachable_primary_keys)
qed

lemma owner_fields_step:
  assumes pk: "primary_keys s" and q: "q \<in> set (Quotes s)"
    and q': "q' \<in> set (Quotes (snd (server uuid now request context s)))"
    and ids: "q_id q' = q_id q"
  shows "q_userId q' = q_userId q \<and> q_collectionId q' = q_collectionId q"
proof -
  from pk have d: "distinct (map q_id (Quotes s))"
    by (simp add: primary_keys_def)
  have old: "x = q" if "x \<in> set (Quotes s)" "q_id x = q_id q" for x
    using same_key [OF d that(1) q that(2)] .
  have fin: ?thesis if "q' \<in> set (Quotes s)"
    using old [OF that ids] by simp
  show ?thesis
  proof (cases rule: server_step [of uuid now request "context" s])
    case same
    with q' have "q' \<in> set (Quotes s)" by simp
    then show ?thesis by (rule fin)
  next
    case (new_collection row)
    with q' have "q' \<in> set (Quotes s)" by simp
    then show ?thesis by (rule fin)
  next
    case (upd_collection i)
    with q' have "q' \<in> set (Quotes s)" by simp
    then show ?thesis by (rule fin)
  next
    case (new_quote row c)
    with q' have "q' \<in> set (Quotes s) \<or> q' = row" by auto
    moreover from new_quote(1) q have "q_id row \<noteq> q_id q" by auto
    ultimately have "q' \<in> set (Quotes s)" using ids by auto
    then show ?thesis by (rule fin)
  next
    case (upd_quote i)
    with q' obtain x where x: "x \<in> set (Quotes s)"
      "q' = (if q_id x = uq_id i then updateQuote_set i now x else x)"
      by auto
    then have k: "q_id x = q_id q'" "q_userId q' = q_userId x"
      "q_collectionId q' = q_collectionId x"
      by (simp_all split: if_splits)
    with ids have "q_id x = q_id q" by simp
    from old [OF x(1) this] k show ?thesis by simp
  next
    case (del_quote p)
    with q' have "q' \<in> set (Quotes s)" by simp
    then show ?thesis by (rule fin)
  qed
qed

lemma createQuote_success:
  assumes "createQuote uuid now i context s = (Inr r, s')"
  shows "\<exists>u c q. requireUser context = Inr u \<and>
    getOwnedCollection (cq_collectionId i) (u_id u) s = Inr c \<and> r = Some q \<and>
    Quotes s' = Quotes s @ [q] \<and> QuoteCollections s' = QuoteCollections s \<and>
    q_id q = uuid \<and> q_userId q = u_id u \<and> q_collectionId q = cq_collectionId i \<and>
    q_userId q = c_userId c \<and> q_collectionId q = c_id c"
proof -
  from assms obtain u c where
    u: "requireUser context = Inr u" and
    c: "getOwnedCollection (cq_collectionId i) (u_id u) s = Inr c"
    by (auto simp: createQuote_def defineAction_def createQuote_handler_def createQuote_schema_def
        split: sum.splits if_splits)
  from assms u c obtain row rows where
    ins: "insert_Quotes row s = Inr (rows, s')" and
    row: "q_collectionId row = cq_collectionId i" "q_userId row = u_id u" "q_id row = uuid"
      "r = first rows"
    by (auto simp: createQuote_def defineAction_def createQuote_handler_def createQuote_schema_def
        split: sum.splits if_splits)
  from insert_Quotes_Inr [OF ins] row(4) have "r = Some row" "Quotes s' = Quotes s @ [row]"
    "QuoteCollections s' = QuoteCollections s"
    by (simp_all add: first_def)
  with getOwnedCollection_found [OF c] u c row(1-3) show ?thesis
    by (intro exI [of _ u] exI [of _ c] exI [of _ row]) simp
qed

lemma reachable_example: "reachable example_store"
proof -
  have r0: "reachable \<lparr>QuoteCollections = [], Quotes = []\<rparr>"
    by (rule reachable.init)
  from reachable.call [OF r0, of "''c1''" 10
      "CreateCollection \<lparr>cc_name = ''Motivation'', cc_description = None, cc_icon = None,
         cc_isDefault = None\<rparr>" alice]
  have r1: "reachable \<lparr>QuoteCollections = [motivation], Quotes = []\<rparr>"
    by (simp add: createCollection_def createCollection_schema_def createCollection_handler_def
        action_defs example_defs)
  from reachable.call [OF r1, of "''c2''" 11
      "CreateCollection \<lparr>cc_name = ''Leadership'', cc_description = None, cc_icon = None,
         cc_isDefault = Some True\<rparr>" bob]
  have r2: "reachable \<lparr>QuoteCollections = [motivation, leadership], Quotes = []\<rparr>"
    by (simp add: createCollection_def createCollection_schema_def createCollection_handler_def
        action_defs example_defs)
  from reachable.call [OF r2, of "''c3''" 12
      "CreateCollection \<lparr>cc_name = ''Calm'', cc_description = Some ''quiet ones'', cc_icon = None,
         cc_isDefault = None\<rparr>" alice]
  have r3: "reachable \<lparr>QuoteCollections = [motivation, leadership, calm], Quotes = []\<rparr>"
    by (simp add: createCollection_def createCollection_schema_def createCollection_handler_def
        action_defs example_defs)
  from reachable.call [OF r3, of "''q1''" 13
      "CreateQuote \<lparr>cq_collectionId = ''c1'', cq_text = ''Keep going'',
         cq_attributedTo = Some ''Astra'', cq_mood = None, cq_tags = None, cq_language = None,
         cq_isFavorite = Some True, cq_isPublic = None\<rparr>" alice]
  have r4: "reachable \<lparr>QuoteCollections = [motivation, leadership, calm], Quotes = [keep_going]\<rparr>"
    by (simp add: createQuote_def createQuote_schema_def createQuote_handler_def
        action_defs example_defs)
  from reachable.call [OF r4, of "''q2''" 14
      "CreateQuote \<lparr>cq_collectionId = ''c2'', cq_text = ''Lead on'',
         cq_attributedTo = None, cq_mood = Some ''calm'', cq_tags = None, cq_language = None,
         cq_isFavorite = None, cq_isPublic = None\<rparr>" bob]
  show ?thesis
    by (simp add: createQuote_def createQuote_schema_def createQuote_handler_def
        action_defs example_defs)
qed

text \<open>
  C2. In every store that calls of the seven actions reach from the empty tables:
  \<^item> every quote has a parent collection, and the parent's userId is the quote's userId;
  \<^item> whatever the next call is, a quote that is in the store before it and a quote with
    the same id after it have the same userId and the same collectionId: no action
    changes either field (the object updateQuote gives to \<^verbatim>\<open>.set\<close> has neither);
  \<^item> a createQuote that succeeds appends one row whose userId is the id of the signed-in
    caller and whose collectionId is the one of the input, and the owner of that
    collection is this caller.
\<close>

theorem quote_owner_invariant:
  assumes "reachable s"
  shows "(\<forall>q\<in>set (Quotes s). owner_matches s q) \<and>
    (\<forall>q\<in>set (Quotes s). \<forall>q'\<in>set (Quotes (snd (server uuid now request ctx s))).
       q_id q' = q_id q \<longrightarrow> q_userId q' = q_userId q \<and> q_collectionId q' = q_collectionId q) \<and>
    (createQuote uuid now i ctx s = (Inr r, s') \<longrightarrow>
       (\<exists>u q. requireUser ctx = Inr u \<and> r = Some q \<and> Quotes s' = Quotes s @ [q] \<and>
          q_userId q = u_id u \<and> q_collectionId q = cq_collectionId i \<and> owner_matches s' q))"
proof (intro conjI impI ballI)
  fix q assume "q \<in> set (Quotes s)"
  with reachable_owner [OF assms] show "owner_matches s q" by simp
next
  fix q q' assume "q \<in> set (Quotes s)"
    "q' \<in> set (Quotes (snd (server uuid now request ctx s)))" "q_id q' = q_id q"
  with owner_fields_step [OF reachable_primary_keys [OF assms]]
  show "q_userId q' = q_userId q" "q_collectionId q' = q_collectionId q" by blast+
next
  assume run: "createQuote uuid now i ctx s = (Inr r, s')"
  from createQuote_success [OF run] obtain u c q where
    h: "requireUser ctx = Inr u" "getOwnedCollection (cq_collectionId i) (u_id u) s = Inr c"
      "r = Some q" "Quotes s' = Quotes s @ [q]" "QuoteCollections s' = QuoteCollections s"
      "q_userId q = u_id u" "q_collectionId q = cq_collectionId i"
      "q_userId q = c_userId c" "q_collectionId q = c_id c"
    by blast
  from reachable_primary_keys [OF assms] have "distinct (map c_id (QuoteCollections s))"
    by (simp add: primary_keys_def)
  from owner_matches_new_quote [OF this _ _ _ h(5), of c q] getOwnedCollection_found [OF h(2)] h(8,9)
  have "owner_matches s' q" by simp
  with h show "\<exists>u q. requireUser ctx = Inr u \<and> r = Some q \<and> Quotes s' = Quotes s @ [q] \<and>
      q_userId q = u_id u \<and> q_collectionId q = cq_collectionId i \<and> owner_matches s' q"
    by blast
qed

text \<open>
  The example store is reachable; Alice then adds a quote to her collection \<open>c3\<close>.
\<close>

theorem quote_owner_invariant_witness:
  "owner_matches example_store keep_going \<and> owner_matches example_store lead_on \<and>
   parent example_store keep_going = Some motivation \<and>
   c_userId motivation = q_userId keep_going \<and>
   createQuote ''q3'' 20
     \<lparr>cq_collectionId = ''c3'', cq_text = ''Breathe'', cq_attributedTo = None, cq_mood = None,
      cq_tags = None, cq_language = None, cq_isFavorite = None, cq_isPublic = None\<rparr>
     alice example_store
   = (Inr (Some \<lparr>q_id = ''q3'', q_collectionId = ''c3'', q_userId = ''alice'',
         q_text = ''Breathe'', q_attributedTo = None, q_mood = None, q_tags = None,
         q_language = None, q_isFavorite = False, q_isPublic = False,
         q_createdAt = 20, q_updatedAt = 20\<rparr>),
      example_store\<lparr>Quotes := [keep_going, lead_on,
        \<lparr>q_id = ''q3'', q_collectionId = ''c3'', q_userId = ''alice'',
         q_text = ''Breathe'', q_attributedTo = None, q_mood = None, q_tags = None,
         q_language = None, q_isFavorite = False, q_isPublic = False,
         q_createdAt = 20, q_updatedAt = 20\<rparr>]\<rparr>) \<and>
   owner_matches
     (example_store\<lparr>Quotes := [keep_going, lead_on,
        \<lparr>q_id = ''q3'', q_collectionId = ''c3'', q_userId = ''alice'',
         q_text = ''Breathe'', q_attributedTo = None, q_mood = None, q_tags = None,
         q_language = None, q_isFavorite = False, q_isPublic = False,
         q_createdAt = 20, q_updatedAt = 20\<rparr>]\<rparr>)
     \<lparr>q_id = ''q3'', q_collectionId = ''c3'', q_userId = ''alice'',
         q_text = ''Breathe'', q_attributedTo = None, q_mood = None, q_tags = None,
         q_language = None, q_isFavorite = False, q_isPublic = False,
         q_createdAt = 20, q_updatedAt = 20\<rparr>"
proof -
  let ?i = "\<lparr>cq_collectionId = ''c3'', cq_text = ''Breathe'', cq_attributedTo = None,
      cq_mood = None, cq_tags = None, cq_language = None, cq_isFavorite = None,
      cq_isPublic = None\<rparr>"
  let ?q = "\<lparr>q_id = ''q3'', q_collectionId = ''c3'', q_userId = ''alice'',
         q_text = ''Breathe'', q_attributedTo = None, q_mood = None, q_tags = None,
         q_language = None, q_isFavorite = False, q_isPublic = False,
         q_createdAt = 20, q_updatedAt = 20\<rparr>"
  let ?s' = "example_store\<lparr>Quotes := [keep_going, lead_on, ?q]\<rparr>"
  have run: "createQuote ''q3'' 20 ?i alice example_store = (Inr (Some ?q), ?s')"
    by (simp add: createQuote_def createQuote_schema_def createQuote_handler_def
        action_defs example_defs)
  note inv = quote_owner_invariant [OF reachable_example,
      where uuid = "''q3''" and now = 20 and i = ?i and ctx = alice
        and r = "Some ?q" and s' = ?s']
  from inv have all: "\<forall>q\<in>set (Quotes example_store). owner_matches example_store q"
    by blast
  have mem: "keep_going \<in> set (Quotes example_store)" "lead_on \<in> set (Quotes example_store)"
    by (simp_all add: example_store_def)
  from all mem have a: "owner_matches example_store keep_going"
    "owner_matches example_store lead_on"
    by blast+
  from inv run have "\<exists>u q. requireUser alice = Inr u \<and> Some ?q = Some q \<and>
      Quotes ?s' = Quotes example_store @ [q] \<and> q_userId q = u_id u \<and>
      q_collectionId q = cq_collectionId ?i \<and> owner_matches ?s' q"
    by blast
  then have b: "owner_matches ?s' ?q"
    by auto
  have c: "parent example_store keep_going = Some motivation"
    "c_userId motivation = q_userId keep_going"
    by (simp_all add: parent_def example_defs)
  from a b c run show ?thesis by simp
qed

subsection \<open>The final write touches the guarded row only\<close>

lemma unique_row_filter:
  assumes d: "distinct (map k xs)" and m: "c \<in> set xs" and q: "Q c"
  shows "filter (\<lambda>r. k r = k c) xs = [c]"
    and "filter (\<lambda>r. k r = k c \<and> Q r) xs = [c]"
proof -
  show one: "filter (\<lambda>r. k r = k c) xs = [c]"
    using d m by (rule filter_unique)
  have "filter (\<lambda>r. k r = k c \<and> Q r) xs = filter (\<lambda>r. k r = k c) xs"
  proof (rule filter_cong [OF refl])
    fix r assume r: "r \<in> set xs"
    show "(k r = k c \<and> Q r) = (k r = k c)"
    proof (cases "k r = k c")
      case True
      from same_key [OF d r m True] q True show ?thesis by simp
    next
      case False
      then show ?thesis by simp
    qed
  qed
  with one show "filter (\<lambda>r. k r = k c \<and> Q r) xs = [c]"
    by simp
qed

lemma unique_row_map:
  assumes d: "distinct (map k xs)" and m: "c \<in> set xs" and q: "Q c"
  shows "map (\<lambda>r. if k r = k c then f r else r) xs = map (\<lambda>r. if r = c then f c else r) xs"
    and "map (\<lambda>r. if k r = k c \<and> Q r then f r else r) xs
          = map (\<lambda>r. if r = c then f c else r) xs"
proof -
  have eq: "(k r = k c) = (r = c)" if "r \<in> set xs" for r
  proof
    assume "k r = k c"
    with same_key [OF d that m] show "r = c" by simp
  next
    assume "r = c"
    then show "k r = k c" by simp
  qed
  show "map (\<lambda>r. if k r = k c then f r else r) xs = map (\<lambda>r. if r = c then f c else r) xs"
  proof (rule map_cong [OF refl])
    fix r assume "r \<in> set xs"
    from eq [OF this] show "(if k r = k c then f r else r) = (if r = c then f c else r)"
      by (cases "r = c") simp_all
  qed
  show "map (\<lambda>r. if k r = k c \<and> Q r then f r else r) xs
          = map (\<lambda>r. if r = c then f c else r) xs"
  proof (rule map_cong [OF refl])
    fix r assume "r \<in> set xs"
    from eq [OF this] q show "(if k r = k c \<and> Q r then f r else r) = (if r = c then f c else r)"
      by (cases "r = c") simp_all
  qed
qed

lemma updateCollection_handler_guarded:
  assumes pk: "primary_keys s" and u: "requireUser context = Inr u"
    and c: "getOwnedCollection (uc_id i) (u_id u) s = Inr c"
  shows "updateCollection_handler now i context s
      = (Inr (Some (updateCollection_set i now c)),
         s\<lparr>QuoteCollections :=
             map (\<lambda>r. if r = c then updateCollection_set i now c else r) (QuoteCollections s)\<rparr>)"
    and "updateCollection_handler_scoped now i context s
      = (Inr (Some (updateCollection_set i now c)),
         s\<lparr>QuoteCollections :=
             map (\<lambda>r. if r = c then updateCollection_set i now c else r) (QuoteCollections s)\<rparr>)"
proof -
  let ?f = "updateCollection_set i now"
  from pk have d: "distinct (map c_id (QuoteCollections s))"
    by (simp add: primary_keys_def)
  from getOwnedCollection_found [OF c] have m: "c \<in> set (QuoteCollections s)"
    and k: "c_id c = uc_id i" and q: "c_userId c = u_id u"
    by simp_all
  have f1: "filter (\<lambda>r. c_id r = uc_id i) (QuoteCollections s) = [c]"
    using unique_row_filter(1) [where Q = "\<lambda>r. c_userId r = u_id u", OF d m] q k by simp
  have f2: "filter (\<lambda>r. c_id r = uc_id i \<and> c_userId r = u_id u) (QuoteCollections s) = [c]"
    using unique_row_filter(2) [where Q = "\<lambda>r. c_userId r = u_id u", OF d m] q k by simp
  have m1: "map (\<lambda>r. if c_id r = uc_id i then ?f r else r) (QuoteCollections s)
      = map (\<lambda>r. if r = c then ?f c else r) (QuoteCollections s)"
    using unique_row_map(1) [where Q = "\<lambda>r. c_userId r = u_id u" and f = ?f, OF d m] q k by simp
  have m2: "map (\<lambda>r. if c_id r = uc_id i \<and> c_userId r = u_id u then ?f r else r) (QuoteCollections s)
      = map (\<lambda>r. if r = c then ?f c else r) (QuoteCollections s)"
    using unique_row_map(2) [where Q = "\<lambda>r. c_userId r = u_id u" and f = ?f, OF d m] q k by simp
  have "db_update ?f (\<lambda>r. c_id r = uc_id i) (QuoteCollections s)
      = ([?f c], map (\<lambda>r. if r = c then ?f c else r) (QuoteCollections s))"
    unfolding db_update_def f1 m1 by simp
  then show "updateCollection_handler now i context s
      = (Inr (Some (?f c)),
         s\<lparr>QuoteCollections := map (\<lambda>r. if r = c then ?f c else r) (QuoteCollections s)\<rparr>)"
    by (simp add: updateCollection_handler_def u c first_def)
  have "db_update ?f (\<lambda>r. c_id r = uc_id i \<and> c_userId r = u_id u) (QuoteCollections s)
      = ([?f c], map (\<lambda>r. if r = c then ?f c else r) (QuoteCollections s))"
    unfolding db_update_def f2 m2 by simp
  then show "updateCollection_handler_scoped now i context s
      = (Inr (Some (?f c)),
         s\<lparr>QuoteCollections := map (\<lambda>r. if r = c then ?f c else r) (QuoteCollections s)\<rparr>)"
    by (simp add: updateCollection_handler_scoped_def u c first_def)
qed

lemma updateQuote_handler_guarded:
  assumes pk: "primary_keys s" and u: "requireUser context = Inr u"
    and c: "getOwnedCollection (uq_collectionId j) (u_id u) s = Inr c"
    and e: "first (db_select (\<lambda>q. q_id q = uq_id j \<and> q_collectionId q = uq_collectionId j)
              (Quotes s)) = Some e"
  shows "updateQuote_handler now j context s
      = (Inr (Some (updateQuote_set j now e)),
         s\<lparr>Quotes := map (\<lambda>r. if r = e then updateQuote_set j now e else r) (Quotes s)\<rparr>)"
    and "updateQuote_handler_scoped now j context s
      = (Inr (Some (updateQuote_set j now e)),
         s\<lparr>Quotes := map (\<lambda>r. if r = e then updateQuote_set j now e else r) (Quotes s)\<rparr>)"
proof -
  let ?f = "updateQuote_set j now"
  from pk have d: "distinct (map q_id (Quotes s))"
    by (simp add: primary_keys_def)
  from first_Some_mem [OF e] have m: "e \<in> set (Quotes s)"
    and k: "q_id e = uq_id j" and q: "q_collectionId e = uq_collectionId j"
    by (simp_all add: db_select_def)
  have f1: "filter (\<lambda>r. q_id r = uq_id j) (Quotes s) = [e]"
    using unique_row_filter(1) [where Q = "\<lambda>r. q_collectionId r = uq_collectionId j", OF d m]
      q k by simp
  have m1: "map (\<lambda>r. if q_id r = uq_id j then ?f r else r) (Quotes s)
      = map (\<lambda>r. if r = e then ?f e else r) (Quotes s)"
    using unique_row_map(1) [where Q = "\<lambda>r. q_collectionId r = uq_collectionId j" and f = ?f,
        OF d m] q k by simp
  have f2: "filter (\<lambda>r. q_id r = uq_id j \<and> q_collectionId r = uq_collectionId j) (Quotes s) = [e]"
    using unique_row_filter(2) [where Q = "\<lambda>r. q_collectionId r = uq_collectionId j", OF d m]
      q k by simp
  have m2: "map (\<lambda>r. if q_id r = uq_id j \<and> q_collectionId r = uq_collectionId j then ?f r else r)
        (Quotes s)
      = map (\<lambda>r. if r = e then ?f e else r) (Quotes s)"
    using unique_row_map(2) [where Q = "\<lambda>r. q_collectionId r = uq_collectionId j" and f = ?f,
        OF d m] q k by simp
  have fs: "first [?f e] = Some (?f e)"
    by (simp add: first_def)
  have "db_update ?f (\<lambda>r. q_id r = uq_id j) (Quotes s)
      = ([?f e], map (\<lambda>r. if r = e then ?f e else r) (Quotes s))"
    unfolding db_update_def f1 m1 by simp
  then show "updateQuote_handler now j context s
      = (Inr (Some (?f e)), s\<lparr>Quotes := map (\<lambda>r. if r = e then ?f e else r) (Quotes s)\<rparr>)"
    by (simp add: updateQuote_handler_def u c e fs)
  have "db_update ?f (\<lambda>r. q_id r = uq_id j \<and> q_collectionId r = uq_collectionId j) (Quotes s)
      = ([?f e], map (\<lambda>r. if r = e then ?f e else r) (Quotes s))"
    unfolding db_update_def f2 m2 by simp
  then show "updateQuote_handler_scoped now j context s
      = (Inr (Some (?f e)), s\<lparr>Quotes := map (\<lambda>r. if r = e then ?f e else r) (Quotes s)\<rparr>)"
    by (simp add: updateQuote_handler_scoped_def u c e fs)
qed

lemma updateCollection_handler_scoped_eq:
  assumes "primary_keys s"
  shows "updateCollection_handler now i context s = updateCollection_handler_scoped now i context s"
proof (cases "requireUser context")
  case (Inl e)
  then show ?thesis
    by (simp add: updateCollection_handler_def updateCollection_handler_scoped_def)
next
  case (Inr u)
  show ?thesis
  proof (cases "getOwnedCollection (uc_id i) (u_id u) s")
    case (Inl e)
    with Inr show ?thesis
      by (simp add: updateCollection_handler_def updateCollection_handler_scoped_def)
  next
    case c: (Inr c)
    from updateCollection_handler_guarded [OF assms Inr c] show ?thesis
      by simp
  qed
qed

lemma updateQuote_handler_scoped_eq:
  assumes "primary_keys s"
  shows "updateQuote_handler now j context s = updateQuote_handler_scoped now j context s"
proof (cases "requireUser context")
  case (Inl e)
  then show ?thesis
    by (simp add: updateQuote_handler_def updateQuote_handler_scoped_def)
next
  case (Inr u)
  show ?thesis
  proof (cases "getOwnedCollection (uq_collectionId j) (u_id u) s")
    case (Inl e)
    with Inr show ?thesis
      by (simp add: updateQuote_handler_def updateQuote_handler_scoped_def)
  next
    case c: (Inr c)
    show ?thesis
    proof (cases "first (db_select (\<lambda>q. q_id q = uq_id j \<and> q_collectionId q = uq_collectionId j)
        (Quotes s))")
      case None
      with Inr c show ?thesis
        by (simp add: updateQuote_handler_def updateQuote_handler_scoped_def)
    next
      case (Some e)
      from updateQuote_handler_guarded [OF assms Inr c Some] show ?thesis
        by simp
    qed
  qed
qed

text \<open>
  C10. In every reachable store, updateCollection and updateQuote, whose final UPDATE
  filters by the row id alone, return the same outcome and leave the same store as the
  variants whose final UPDATE also carries the ownership filter (id and userId, id and
  collectionId), for every input and context. And when the guard (for updateQuote, also
  the lookup of the quote under the collection) has succeeded, the write changes exactly
  the row the guard found: that row is replaced by its patched version, which is also
  the row returned, and every other row is left as it is. Ids are primary keys, so the
  row with the id is the row the guard saw.
\<close>

theorem scoped_write_equivalent:
  assumes "reachable s"
  shows "updateCollection now i ctx s = updateCollection_scoped now i ctx s \<and>
    updateQuote now j ctx s = updateQuote_scoped now j ctx s \<and>
    (requireUser ctx = Inr u \<and> getOwnedCollection (uc_id i) (u_id u) s = Inr c \<longrightarrow>
       updateCollection_handler now i ctx s
         = (Inr (Some (updateCollection_set i now c)),
            s\<lparr>QuoteCollections :=
                map (\<lambda>r. if r = c then updateCollection_set i now c else r)
                  (QuoteCollections s)\<rparr>)) \<and>
    (requireUser ctx = Inr u \<and> getOwnedCollection (uq_collectionId j) (u_id u) s = Inr c' \<and>
     first (db_select (\<lambda>q. q_id q = uq_id j \<and> q_collectionId q = uq_collectionId j) (Quotes s))
       = Some e \<longrightarrow>
       updateQuote_handler now j ctx s
         = (Inr (Some (updateQuote_set j now e)),
            s\<lparr>Quotes := map (\<lambda>r. if r = e then updateQuote_set j now e else r) (Quotes s)\<rparr>))"
proof -
  from assms have pk: "primary_keys s"
    by (rule reachable_primary_keys)
  have a: "updateCollection now i ctx s = updateCollection_scoped now i ctx s"
    by (simp add: updateCollection_def updateCollection_scoped_def defineAction_def
        updateCollection_handler_scoped_eq [OF pk] split: sum.splits)
  have b: "updateQuote now j ctx s = updateQuote_scoped now j ctx s"
    by (simp add: updateQuote_def updateQuote_scoped_def defineAction_def
        updateQuote_handler_scoped_eq [OF pk] split: sum.splits)
  have c: "updateCollection_handler now i ctx s
         = (Inr (Some (updateCollection_set i now c)),
            s\<lparr>QuoteCollections :=
                map (\<lambda>r. if r = c then updateCollection_set i now c else r)
                  (QuoteCollections s)\<rparr>)"
    if "requireUser ctx = Inr u \<and> getOwnedCollection (uc_id i) (u_id u) s = Inr c"
    using that updateCollection_handler_guarded(1) [OF pk, of ctx u i c now] by simp
  have d: "updateQuote_handler now j ctx s
         = (Inr (Some (updateQuote_set j now e)),
            s\<lparr>Quotes := map (\<lambda>r. if r = e then updateQuote_set j now e else r) (Quotes s)\<rparr>)"
    if "requireUser ctx = Inr u \<and> getOwnedCollection (uq_collectionId j) (u_id u) s = Inr c' \<and>
     first (db_select (\<lambda>q. q_id q = uq_id j \<and> q_collectionId q = uq_collectionId j) (Quotes s))
       = Some e"
    using that updateQuote_handler_guarded(1) [OF pk, of ctx u j c' e now] by simp
  from a b c d show ?thesis
    by (intro conjI impI)
qed

text \<open>Alice renames her collection \<open>c1\<close> and takes the favourite mark off \<open>q1\<close>.\<close>

theorem scoped_write_equivalent_witness:
  "updateCollection 20
     \<lparr>uc_id = ''c1'', uc_name = Some ''Drive'', uc_description = None, uc_icon = None,
      uc_isDefault = None\<rparr> alice example_store
   = updateCollection_scoped 20
     \<lparr>uc_id = ''c1'', uc_name = Some ''Drive'', uc_description = None, uc_icon = None,
      uc_isDefault = None\<rparr> alice example_store \<and>
   updateCollection_scoped 20
     \<lparr>uc_id = ''c1'', uc_name = Some ''Drive'', uc_description = None, uc_icon = None,
      uc_isDefault = None\<rparr> alice example_store
   = (Inr (Some (motivation\<lparr>c_name := ''Drive'', c_updatedAt := 20\<rparr>)),
      example_store\<lparr>QuoteCollections :=
        [motivation\<lparr>c_name := ''Drive'', c_updatedAt := 20\<rparr>, leadership, calm]\<rparr>) \<and>
   updateQuote 20
     \<lparr>uq_id = ''q1'', uq_collectionId = ''c1'', uq_text = None, uq_attributedTo = None,
      uq_mood = None, uq_tags = None, uq_language = None, uq_isFavorite = Some False,
      uq_isPublic = None\<rparr> alice example_store
   = updateQuote_scoped 20
     \<lparr>uq_id = ''q1'', uq_collectionId = ''c1'', uq_text = None, uq_attributedTo = None,
      uq_mood = None, uq_tags = None, uq_language = None, uq_isFavorite = Some False,
      uq_isPublic = None\<rparr> alice example_store \<and>
   updateQuote_scoped 20
     \<lparr>uq_id = ''q1'', uq_collectionId = ''c1'', uq_text = None, uq_attributedTo = None,
      uq_mood = None, uq_tags = None, uq_language = None, uq_isFavorite = Some False,
      uq_isPublic = None\<rparr> alice example_store
   = (Inr (Some (keep_going\<lparr>q_isFavorite := False, q_updatedAt := 20\<rparr>)),
      example_store\<lparr>Quotes := [keep_going\<lparr>q_isFavorite := False, q_updatedAt := 20\<rparr>, lead_on]\<rparr>)"
proof -
  let ?i = "\<lparr>uc_id = ''c1'', uc_name = Some ''Drive'', uc_description = None, uc_icon = None,
      uc_isDefault = None\<rparr>"
  let ?j = "\<lparr>uq_id = ''q1'', uq_collectionId = ''c1'', uq_text = None, uq_attributedTo = None,
      uq_mood = None, uq_tags = None, uq_language = None, uq_isFavorite = Some False,
      uq_isPublic = None\<rparr>"
  note eq = scoped_write_equivalent [OF reachable_example,
      where now = 20 and i = ?i and j = ?j and ctx = alice]
  from eq have a: "updateCollection 20 ?i alice example_store
      = updateCollection_scoped 20 ?i alice example_store"
    by (rule conjunct1)
  from eq have b: "updateQuote 20 ?j alice example_store
      = updateQuote_scoped 20 ?j alice example_store"
    by (rule conjunct1 [OF conjunct2])
  have c: "updateCollection_scoped 20 ?i alice example_store
      = (Inr (Some (motivation\<lparr>c_name := ''Drive'', c_updatedAt := 20\<rparr>)),
         example_store\<lparr>QuoteCollections :=
           [motivation\<lparr>c_name := ''Drive'', c_updatedAt := 20\<rparr>, leadership, calm]\<rparr>)"
    by (simp add: updateCollection_scoped_def updateCollection_schema_def
        updateCollection_refine_def updateCollection_handler_scoped_def updateCollection_set_def
        action_defs example_defs)
  have d: "updateQuote_scoped 20 ?j alice example_store
      = (Inr (Some (keep_going\<lparr>q_isFavorite := False, q_updatedAt := 20\<rparr>)),
         example_store\<lparr>Quotes := [keep_going\<lparr>q_isFavorite := False, q_updatedAt := 20\<rparr>, lead_on]\<rparr>)"
    by (simp add: updateQuote_scoped_def updateQuote_schema_def updateQuote_refine_def
        updateQuote_handler_scoped_def updateQuote_set_def action_defs example_defs)
  from a b c d show ?thesis
    by (intro conjI)
qed

end
